theory Spec2Isabelle
  imports Complex_Main
begin

section \<open>Synchronising the TC39 proposal dataset with Jira: a model of the scripts\<close>

text \<open>
  The repository holds one script, \<^verbatim>\<open>src/main.js\<close>, and three earlier revisions of it
  (\<^verbatim>\<open>src/unnamed/part_000\<close>, \<^verbatim>\<open>part_001\<close>, \<^verbatim>\<open>part_002\<close>). The functions modelled are
  \<^verbatim>\<open>parseJiraCsv\<close> (parts 000 to 002), and \<^verbatim>\<open>getIssues\<close>, \<^verbatim>\<open>createIssue\<close>,
  \<^verbatim>\<open>updateIssue\<close> and \<^verbatim>\<open>parseTC39Dataset\<close> of \<^verbatim>\<open>main.js\<close>.

  JavaScript strings are modelled as \<^typ>\<open>string\<close>. Every pattern and every literal of the
  scripts is ASCII, and no byte of a multi-byte character lies in an ASCII class, so the
  patterns select the same text whether a line is read as UTF-16 code units or as bytes.
\<close>

subsection \<open>Constants\<close>

definition PROJECTKEY :: string where
  "PROJECTKEY = ''SJP''"

definition COMPONENT :: string where
  "COMPONENT = ''TC39 Proposals''"

definition ISSUETYPE_STORY :: int where
  "ISSUETYPE_STORY = 10030"

text \<open>
  \<^verbatim>\<open>STAGE_EPICS\<close> is an object literal with the keys \<^verbatim>\<open>"1"\<close>, \<^verbatim>\<open>"2"\<close>, \<^verbatim>\<open>"2.7"\<close>,
  \<^verbatim>\<open>"3"\<close>, \<^verbatim>\<open>"4"\<close>. It is read as \<^verbatim>\<open>STAGE_EPICS[stage]\<close> with a number: the number is
  turned into its canonical decimal string, and distinct numbers have distinct strings,
  so the lookup finds an entry exactly for the numbers 1, 2, 2.7, 3 and 4. Numbers are
  modelled as rationals (the value of the JSON literal); rounding to IEEE doubles is not
  modelled.
\<close>

definition STAGE_EPICS_table :: "(rat \<times> string) list" where
  "STAGE_EPICS_table =
     [(1, ''SJP-184''), (2, ''SJP-185''), (27 / 10, ''SJP-186''),
      (3, ''SJP-187''), (4, ''SJP-188'')]"

definition STAGE_EPICS :: "rat \<Rightarrow> string option" where
  "STAGE_EPICS stage = map_of STAGE_EPICS_table stage"

subsection \<open>The two regular expressions\<close>

text \<open>
  \<^verbatim>\<open>line.match(re)\<close> without the \<^verbatim>\<open>g\<close> flag tries the pattern at every start position
  from the left and returns the first match, or \<^verbatim>\<open>null\<close>. Both patterns are a literal
  prefix followed by a greedy \<^verbatim>\<open>+\<close> over a character class with nothing after it, so the
  match at a position is the prefix and the longest run of class characters, at least one.
\<close>

definition is_digit :: "char \<Rightarrow> bool" where
  "is_digit c \<longleftrightarrow> c \<in> set ''0123456789''"

definition is_id_char :: "char \<Rightarrow> bool" where
  "is_id_char c \<longleftrightarrow>
     c \<in> set ''ABCDEFGHIJKLMNOPQRSTUVWXYZabcdefghijklmnopqrstuvwxyz0123456789.-''"

fun first_match :: "(string \<Rightarrow> 'a option) \<Rightarrow> string \<Rightarrow> 'a option" where
  "first_match pat [] = pat []"
| "first_match pat (c # cs) =
     (case pat (c # cs) of Some r \<Rightarrow> Some r | None \<Rightarrow> first_match pat cs)"

text \<open>\<^verbatim>\<open>/(SJP\-[0-9]+)/\<close> anchored at the start of \<open>s\<close>; the value is group 1.\<close>

definition key_at :: "string \<Rightarrow> string option" where
  "key_at s =
     (if take 4 s = ''SJP-'' \<and> takeWhile is_digit (drop 4 s) \<noteq> []
      then Some (''SJP-'' @ takeWhile is_digit (drop 4 s)) else None)"

text \<open>\<^verbatim>\<open>/id: ([A-Za-z0-9.-]+)/\<close> anchored at the start of \<open>s\<close>; the value is group 1.\<close>

definition id_at :: "string \<Rightarrow> string option" where
  "id_at s =
     (if take 4 s = ''id: '' \<and> takeWhile is_id_char (drop 4 s) \<noteq> []
      then Some (takeWhile is_id_char (drop 4 s)) else None)"

definition match_key :: "string \<Rightarrow> string option" where
  "match_key line = first_match key_at line"

definition match_id :: "string \<Rightarrow> string option" where
  "match_id line = first_match id_at line"

subsection \<open>parseJiraCsv: the index from a bulk export\<close>

text \<open>
  The lines come from \<^verbatim>\<open>handle.readLines()\<close>; the result is the object \<^verbatim>\<open>mapping\<close>
  that is written to \<^verbatim>\<open>keys.json\<close>. \<open>csv_line\<close> is the body of the loop.
\<close>

definition csv_line :: "string \<Rightarrow> (string \<rightharpoonup> string) \<Rightarrow> (string \<rightharpoonup> string)" where
  "csv_line line mapping =
     (case match_key line of
        None \<Rightarrow> mapping
      | Some key \<Rightarrow>
          (case match_id line of
             None \<Rightarrow> mapping
           | Some ident \<Rightarrow>
               if ident = ''undefined'' then mapping else mapping(ident \<mapsto> key)))"

definition parseJiraCsv :: "string list \<Rightarrow> (string \<rightharpoonup> string)" where
  "parseJiraCsv lines = fold csv_line lines Map.empty"

text \<open>The pair a line contributes, if it contributes one.\<close>

definition csv_entry :: "string \<Rightarrow> (string \<times> string) option" where
  "csv_entry line =
     (case (match_key line, match_id line) of
        (Some key, Some ident) \<Rightarrow> if ident = ''undefined'' then None else Some (ident, key)
      | _ \<Rightarrow> None)"

subsection \<open>Proposals and the host environment\<close>

text \<open>
  A proposal of the dataset, with the fields the script reads. \<^verbatim>\<open>proposal.id\<close> and
  \<^verbatim>\<open>proposal.edition\<close> may be missing (\<^verbatim>\<open>undefined\<close>), which the script tests for
  or compares with; the other fields are taken as present.
\<close>

record tc39_note =
  note_date :: string
  note_url :: string

record proposal =
  prop_id :: "string option"
  prop_name :: string
  prop_url :: string
  prop_stage :: rat
  prop_edition :: "int option"
  prop_notes :: "tc39_note list"

text \<open>
  The value of \<^verbatim>\<open>Date.parse\<close>: \<^verbatim>\<open>NaN\<close>, or a time value in milliseconds since
  1970-01-01T00:00:00Z.
\<close>

datatype time_value = NaN | TimeValue int

text \<open>
  What the script takes from the JavaScript host: \<^verbatim>\<open>Date.parse\<close> (whose grammar beyond
  the ISO format is implementation-defined), and the default time zone, given as the
  offset from UTC in milliseconds that is in force at an instant. The formatter is
  built by \<^verbatim>\<open>new Intl.DateTimeFormat("en-CA", {dateStyle: "short"})\<close>, with no
  \<^verbatim>\<open>timeZone\<close> option, so it formats in the host's default time zone (ECMA-402,
  CreateDateTimeFormat).
\<close>

record host =
  Date_parse :: "string \<Rightarrow> time_value"
  LocalTZA :: "int \<Rightarrow> int"

text \<open>JavaScript truthiness of a number, as tested by \<^verbatim>\<open>if (date)\<close>.\<close>

fun truthy :: "time_value \<Rightarrow> bool" where
  "truthy NaN = False"
| "truthy (TimeValue t) = (t \<noteq> 0)"

subsection \<open>Formatting a date\<close>

fun show_nat :: "nat \<Rightarrow> string" where
  "show_nat n =
     (if n < 10 then [''0123456789'' ! n]
      else show_nat (n div 10) @ [''0123456789'' ! (n mod 10)])"

declare show_nat.simps [simp del]

definition pad2 :: "nat \<Rightarrow> string" where
  "pad2 n = (if n < 10 then ''0'' @ show_nat n else show_nat n)"

text \<open>
  The proleptic Gregorian date (year, month, day) of a day number counted from
  1970-01-01. The day number is shifted to count from 0000-03-01, then split into
  cycles of 400, 100, 4 and 1 years that start on 1 March: \<open>march_year_day\<close> gives the
  year that starts on 1 March and the day within it, from 0.
\<close>

definition march_year_day :: "int \<Rightarrow> int \<times> int" where
  "march_year_day days =
     (let z = days + 719468;
          n400 = z div 146097; r400 = z mod 146097;
          n100 = min 3 (r400 div 36524); r100 = r400 - n100 * 36524;
          n4 = r100 div 1461; r4 = r100 mod 1461;
          n1 = min 3 (r4 div 365); r1 = r4 - n1 * 365
      in (400 * n400 + 100 * n100 + 4 * n4 + n1, r1))"

definition civil_from_days :: "int \<Rightarrow> int \<times> int \<times> int" where
  "civil_from_days days =
     (case march_year_day days of
        (y, r1) \<Rightarrow>
          let mp = (5 * r1 + 2) div 153;
              d = r1 - (153 * mp + 2) div 5 + 1;
              m = (if mp < 10 then mp + 3 else mp - 9)
          in (if m \<le> 2 then y + 1 else y, m, d))"

definition local_day :: "host \<Rightarrow> int \<Rightarrow> int" where
  "local_day h t = (t + LocalTZA h t) div 86400000"

definition local_year :: "host \<Rightarrow> int \<Rightarrow> int" where
  "local_year h t = fst (civil_from_days (local_day h t))"

text \<open>
  \<^verbatim>\<open>DTF.format(t)\<close>. The short date pattern of the locale \<^verbatim>\<open>en-CA\<close> is \<^verbatim>\<open>y-MM-dd\<close>
  (CLDR): the year of the era without padding, then month and day with two digits.
\<close>

definition DTF_format :: "host \<Rightarrow> int \<Rightarrow> string" where
  "DTF_format h t =
     (case civil_from_days (local_day h t) of
        (y, m, d) \<Rightarrow>
          show_nat (nat (if 1 \<le> y then y else 1 - y)) @ ''-'' @ pad2 (nat m) @ ''-''
            @ pad2 (nat d))"

definition is_YYYY_MM_DD :: "string \<Rightarrow> bool" where
  "is_YYYY_MM_DD s \<longleftrightarrow>
     length s = 10 \<and> is_digit (s ! 0) \<and> is_digit (s ! 1) \<and> is_digit (s ! 2) \<and> is_digit (s ! 3)
     \<and> s ! 4 = CHR ''-'' \<and> is_digit (s ! 5) \<and> is_digit (s ! 6)
     \<and> s ! 7 = CHR ''-'' \<and> is_digit (s ! 8) \<and> is_digit (s ! 9)"

subsection \<open>Rendering the description\<close>

text \<open>The objects \<^verbatim>\<open>{date: date, url: note.url}\<close> pushed onto the array \<^verbatim>\<open>notes\<close>.\<close>

record dated_note =
  dn_date :: int
  dn_url :: string

text \<open>The loop \<^verbatim>\<open>for (let idx in proposal.notes)\<close>: a note is kept when \<^verbatim>\<open>if (date)\<close> passes.\<close>

fun collect_notes :: "host \<Rightarrow> tc39_note list \<Rightarrow> dated_note list" where
  "collect_notes h [] = []"
| "collect_notes h (n # ns) =
     (if truthy (Date_parse h (note_date n))
      then (case Date_parse h (note_date n) of
              TimeValue t \<Rightarrow> \<lparr>dn_date = t, dn_url = note_url n\<rparr> # collect_notes h ns
            | NaN \<Rightarrow> collect_notes h ns)
      else collect_notes h ns)"

text \<open>
  \<^verbatim>\<open>notes.sort((a, b) => a.date - b.date)\<close>: \<^verbatim>\<open>Array.prototype.sort\<close> is stable, and
  the comparator orders by the time value, so the result is the stable sort by
  \<open>dn_date\<close> (\<^const>\<open>sort_key\<close> is the stable insertion sort).
\<close>

definition sorted_notes :: "host \<Rightarrow> tc39_note list \<Rightarrow> dated_note list" where
  "sorted_notes h notes = sort_key dn_date (collect_notes h notes)"

definition note_line :: "host \<Rightarrow> dated_note \<Rightarrow> string" where
  "note_line h n = ''  - '' @ DTF_format h (dn_date n) @ '': '' @ dn_url n @ [CHR 0x0A]"

definition noteString :: "host \<Rightarrow> tc39_note list \<Rightarrow> string" where
  "noteString h notes =
     foldl (\<lambda>acc n. acc @ note_line h n) (''notes:'' @ [CHR 0x0A]) (sorted_notes h notes)"

definition description :: "host \<Rightarrow> string \<Rightarrow> string \<Rightarrow> tc39_note list \<Rightarrow> string" where
  "description h ident url notes =
     ''id: '' @ ident @ [CHR 0x0A] @ ''url: '' @ url @ [CHR 0x0A] @ noteString h notes"

subsection \<open>Requests, responses and the state of a run\<close>

text \<open>
  The value handed to \<^verbatim>\<open>JSON.stringify\<close> as the body of a request. A property whose
  value is \<^verbatim>\<open>undefined\<close> is left out by \<^verbatim>\<open>JSON.stringify\<close>, so it is left out here.
\<close>

datatype json = JStr string | JNum int | JArr "json list" | JObj "(string \<times> json) list"

text \<open>Every property name that occurs in a JSON value, at any depth.\<close>

fun json_keys :: "json \<Rightarrow> string list" where
  "json_keys (JStr s) = []"
| "json_keys (JNum n) = []"
| "json_keys (JArr xs) = concat (map json_keys xs)"
| "json_keys (JObj kvs) = concat (map (\<lambda>(k, v). k # json_keys v) kvs)"

text \<open>The member of an object: \<^verbatim>\<open>o[k]\<close>.\<close>

fun json_member :: "string \<Rightarrow> json \<Rightarrow> json option" where
  "json_member k (JObj kvs) = map_of kvs k"
| "json_member k _ = None"

text \<open>
  A call of \<^verbatim>\<open>fetch\<close>: method, URL and body. The headers (basic authorisation from
  the API token, content type and length) play no part in what follows and are left out.
\<close>

record http_request =
  req_method :: string
  req_url :: string
  req_body :: json

text \<open>A record of \<^verbatim>\<open>data.issues\<close>: \<^verbatim>\<open>issue.key\<close> and \<^verbatim>\<open>issue.fields.description\<close>.\<close>

record issue =
  issue_key :: string
  issue_description :: "string option"

text \<open>
  What \<^verbatim>\<open>response.json()\<close> gives: the body is not JSON (the call rejects with a
  SyntaxError); or a search result with \<^verbatim>\<open>total\<close> and \<^verbatim>\<open>issues\<close>; or the answer of
  the issue endpoint, of which the script reads \<^verbatim>\<open>data.key\<close> and prints
  \<^verbatim>\<open>JSON.stringify(data.errors)\<close> (each \<open>None\<close> when the member is missing).

  Of a response the script reads \<^verbatim>\<open>status\<close>, \<^verbatim>\<open>statusText\<close>, the result of
  \<^verbatim>\<open>json()\<close>, and, in the template of \<^verbatim>\<open>getIssues\<close>, \<^verbatim>\<open>response.text\<close>: the method
  is not called there, so the template prints the method itself, which is the source text
  of that method in the implementation of \<^verbatim>\<open>fetch\<close>. \<open>text_method\<close> is that text.
\<close>

datatype payload =
    NotJson
  | SearchData nat "issue list"
  | IssueData "string option" "string option"

record http_response =
  status :: nat
  statusText :: string
  payload :: payload
  text_method :: string

text \<open>
  The external service: the response to a request, which may depend on every request
  made before it in the run.
\<close>

type_synonym service = "http_request list \<Rightarrow> http_request \<Rightarrow> http_response"

text \<open>The observable state of a run: the lines printed and the requests made.\<close>

record run_state =
  logs :: "string list"
  calls :: "http_request list"

datatype js_error = TypeError | SyntaxError

definition console_log :: "string \<Rightarrow> run_state \<Rightarrow> run_state" where
  "console_log line s = s\<lparr>logs := logs s @ [line]\<rparr>"

definition fetch :: "service \<Rightarrow> http_request \<Rightarrow> run_state \<Rightarrow> http_response \<times> run_state" where
  "fetch srv req s = (srv (calls s) req, s\<lparr>calls := calls s @ [req]\<rparr>)"

definition show_undefined :: "string option \<Rightarrow> string" where
  "show_undefined v = (case v of None \<Rightarrow> ''undefined'' | Some x \<Rightarrow> x)"

definition data_key :: "payload \<Rightarrow> string option" where
  "data_key d = (case d of IssueData k e \<Rightarrow> k | _ \<Rightarrow> None)"

definition data_errors :: "payload \<Rightarrow> string option" where
  "data_errors d = (case d of IssueData k e \<Rightarrow> e | _ \<Rightarrow> None)"

definition API :: string where
  "API = ''https://mozilla-hub.atlassian.net/rest/api/2''"

subsection \<open>getIssues: the index from the live query\<close>

definition search_request :: "nat \<Rightarrow> http_request" where
  "search_request startAt =
     \<lparr>req_method = ''POST'', req_url = API @ ''/search'',
      req_body = JObj
        [(''expand'', JArr []),
         (''fields'', JArr [JStr ''description'']),
         (''jql'', JStr (''project = '' @ [CHR 0x22] @ PROJECTKEY @ [CHR 0x22]
                          @ '' and component = '' @ [CHR 0x22] @ COMPONENT @ [CHR 0x22])),
         (''maxResults'', JNum 100),
         (''startAt'', JNum (int startAt))]\<rparr>"

text \<open>The body of \<^verbatim>\<open>for (const issue of data.issues)\<close>.\<close>

definition set_issue :: "issue \<Rightarrow> (string \<rightharpoonup> string) \<Rightarrow> (string \<rightharpoonup> string)" where
  "set_issue issue mapping =
     (case issue_description issue of
        None \<Rightarrow> mapping
      | Some d \<Rightarrow>
          if d = [] then mapping
          else (case match_id d of
                  None \<Rightarrow> mapping
                | Some ident \<Rightarrow>
                    if ident = ''undefined'' then mapping
                    else mapping(ident \<mapsto> issue_key issue)))"

definition issue_entry :: "issue \<Rightarrow> (string \<times> string) option" where
  "issue_entry issue =
     (case issue_description issue of
        None \<Rightarrow> None
      | Some d \<Rightarrow>
          (case match_id d of
             None \<Rightarrow> None
           | Some ident \<Rightarrow> if ident = ''undefined'' then None else Some (ident, issue_key issue)))"

text \<open>
  The loop \<^verbatim>\<open>while (startAt < totalResults)\<close>. It need not end (the service may
  report a larger total with each page), so the result is an option and \<open>None\<close> stands
  for a run that never returns. The value returned is \<open>Inr (Some mapping)\<close>, or
  \<open>Inr None\<close> for the bare \<^verbatim>\<open>return\<close> (the value \<^verbatim>\<open>undefined\<close>), and \<open>Inl\<close> is an
  exception: \<^verbatim>\<open>response.json()\<close> rejects on a body that is not JSON, and
  \<^verbatim>\<open>data.issues\<close> of another payload is not iterable.
\<close>

partial_function (option) getIssues_loop ::
  "service \<Rightarrow> nat \<Rightarrow> nat \<Rightarrow> (string \<rightharpoonup> string) \<Rightarrow> run_state
     \<Rightarrow> (run_state \<times> (js_error + (string \<rightharpoonup> string) option)) option" where
  "getIssues_loop srv startAt totalResults mapping s =
     (if startAt < totalResults then
        (case fetch srv (search_request startAt) s of
           (response, s1) \<Rightarrow>
             if status response = 200 then
               (case payload response of
                  SearchData dataTotal issues \<Rightarrow>
                    getIssues_loop srv (startAt + 100) dataTotal (fold set_issue issues mapping) s1
                | NotJson \<Rightarrow> Some (s1, Inl SyntaxError)
                | IssueData k e \<Rightarrow> Some (s1, Inl TypeError))
             else
               Some (console_log (''Error: Could not query issues: status: ''
                                   @ show_nat (status response) @ '' text: ''
                                   @ text_method response) s1,
                     Inr None))
      else Some (s, Inr (Some mapping)))"

declare getIssues_loop.simps [code]

definition getIssues ::
  "service \<Rightarrow> run_state \<Rightarrow> (run_state \<times> (js_error + (string \<rightharpoonup> string) option)) option" where
  "getIssues srv s = getIssues_loop srv 0 1 Map.empty s"

subsection \<open>createIssue and updateIssue\<close>

definition parent_of :: "rat \<Rightarrow> json" where
  "parent_of stage =
     JObj (case STAGE_EPICS stage of None \<Rightarrow> [] | Some k \<Rightarrow> [(''key'', JStr k)])"

definition create_request :: "string \<Rightarrow> string \<Rightarrow> rat \<Rightarrow> http_request" where
  "create_request name descr stage =
     \<lparr>req_method = ''POST'', req_url = API @ ''/issue'',
      req_body = JObj
        [(''fields'', JObj
           [(''project'', JObj [(''key'', JStr PROJECTKEY)]),
            (''parent'', parent_of stage),
            (''summary'', JStr name),
            (''issuetype'', JObj [(''id'', JNum ISSUETYPE_STORY)]),
            (''description'', JStr descr),
            (''components'', JArr [JObj [(''name'', JStr COMPONENT)]])])]\<rparr>"

definition createIssue ::
  "service \<Rightarrow> string \<Rightarrow> string \<Rightarrow> rat \<Rightarrow> run_state \<Rightarrow> run_state \<times> (js_error + unit)" where
  "createIssue srv name descr stage s =
     (case fetch srv (create_request name descr stage) s of
        (response, s1) \<Rightarrow>
          if status response = 201 then
            (case payload response of
               NotJson \<Rightarrow> (s1, Inl SyntaxError)
             | data \<Rightarrow>
                 (console_log (''Created issue for '' @ name @ '' with key: ''
                                @ show_undefined (data_key data)) s1, Inr ()))
          else
            (case payload response of
               NotJson \<Rightarrow> (s1, Inl SyntaxError)
             | data \<Rightarrow>
                 (console_log (''Error creating issue for '' @ name @ '': ''
                                @ show_nat (status response) @ '': ''
                                @ show_undefined (data_errors data)) s1, Inr ())))"

definition update_request :: "string \<Rightarrow> string \<Rightarrow> rat \<Rightarrow> http_request" where
  "update_request issueKey descr stage =
     \<lparr>req_method = ''PUT'', req_url = API @ ''/issue/'' @ issueKey,
      req_body = JObj
        [(''fields'', JObj [(''parent'', parent_of stage)]),
         (''update'', JObj [(''description'', JArr [JObj [(''set'', JStr descr)]])])]\<rparr>"

text \<open>\<^verbatim>\<open>console.log(a, b)\<close> prints two strings with a space between them.\<close>

definition updateIssue ::
  "service \<Rightarrow> string \<Rightarrow> string \<Rightarrow> rat \<Rightarrow> run_state \<Rightarrow> run_state \<times> (js_error + unit)" where
  "updateIssue srv issueKey descr stage s =
     (case fetch srv (update_request issueKey descr stage) s of
        (response, s1) \<Rightarrow>
          if status response = 204 then
            (console_log (''Successfully updated '' @ issueKey @ '': '' @ '' ''
                           @ statusText response) s1, Inr ())
          else
            (console_log (''Error: could not update '' @ issueKey @ '': '' @ '' ''
                           @ statusText response) s1, Inr ()))"

subsection \<open>parseTC39Dataset\<close>

text \<open>\<^verbatim>\<open>proposal.edition < 2024\<close>; a missing edition is \<^verbatim>\<open>NaN\<close> and compares false.\<close>

definition edition_before :: "int option \<Rightarrow> int \<Rightarrow> bool" where
  "edition_before edition year = (case edition of None \<Rightarrow> False | Some e \<Rightarrow> e < year)"

text \<open>
  The body of \<^verbatim>\<open>for (let proposal of data)\<close>. \<open>issueKeys\<close> is what \<^verbatim>\<open>getIssues\<close>
  returned: \<open>None\<close> is \<^verbatim>\<open>undefined\<close>, and \<^verbatim>\<open>issueKeys.get\<close> then raises a TypeError.
\<close>

definition process_proposal ::
  "service \<Rightarrow> host \<Rightarrow> (string \<rightharpoonup> string) option \<Rightarrow> proposal \<Rightarrow> run_state
     \<Rightarrow> run_state \<times> (js_error + unit)" where
  "process_proposal srv h issueKeys p s =
     (if 1 \<le> prop_stage p then
        if prop_stage p = 4 \<and> edition_before (prop_edition p) 2024 then (s, Inr ())
        else
          (case prop_id p of
             None \<Rightarrow> (s, Inr ())
           | Some ident \<Rightarrow>
               (case issueKeys of
                  None \<Rightarrow> (s, Inl TypeError)
                | Some index \<Rightarrow>
                    (case index ident of
                       None \<Rightarrow>
                         createIssue srv (prop_name p)
                           (description h ident (prop_url p) (prop_notes p)) (prop_stage p) s
                     | Some issueKey \<Rightarrow>
                         updateIssue srv issueKey
                           (description h ident (prop_url p) (prop_notes p)) (prop_stage p) s)))
      else (s, Inr ()))"

text \<open>The loop over the dataset: an exception in the body ends the run.\<close>

fun proposals_loop ::
  "service \<Rightarrow> host \<Rightarrow> (string \<rightharpoonup> string) option \<Rightarrow> proposal list \<Rightarrow> run_state
     \<Rightarrow> run_state \<times> (js_error + unit)" where
  "proposals_loop srv h issueKeys [] s = (s, Inr ())"
| "proposals_loop srv h issueKeys (p # ps) s =
     (case process_proposal srv h issueKeys p s of
        (s1, Inl e) \<Rightarrow> (s1, Inl e)
      | (s1, Inr u) \<Rightarrow> proposals_loop srv h issueKeys ps s1)"

definition start :: run_state where
  "start = \<lparr>logs = [], calls = []\<rparr>"


text \<open>Which endpoint a request goes to.\<close>

definition is_search :: "http_request \<Rightarrow> bool" where
  "is_search r \<longleftrightarrow> req_method r = ''POST'' \<and> req_url r = API @ ''/search''"

definition is_create :: "http_request \<Rightarrow> bool" where
  "is_create r \<longleftrightarrow> req_method r = ''POST'' \<and> req_url r = API @ ''/issue''"

definition is_update :: "http_request \<Rightarrow> bool" where
  "is_update r \<longleftrightarrow> req_method r = ''PUT'' \<and> take (length (API @ ''/issue/'')) (req_url r) = API @ ''/issue/''"

subsection \<open>Reading requests and plans\<close>

text \<open>A member reached by a path of property names: \<^verbatim>\<open>o[k1][k2]...\<close>.\<close>

fun path :: "string list \<Rightarrow> json \<Rightarrow> json option" where
  "path [] j = Some j"
| "path (k # ks) j = (case json_member k j of None \<Rightarrow> None | Some v \<Rightarrow> path ks v)"

text \<open>
  The three tests at the head of the loop body of \<^verbatim>\<open>parseTC39Dataset\<close>: a proposal
  that passes all of them reaches \<^verbatim>\<open>issueKeys.get\<close>.
\<close>

definition relevant :: "proposal \<Rightarrow> bool" where
  "relevant p \<longleftrightarrow>
     1 \<le> prop_stage p
     \<and> \<not> (prop_stage p = 4 \<and> edition_before (prop_edition p) 2024)
     \<and> prop_id p \<noteq> None"

text \<open>
  The request the loop body makes for a relevant proposal, given the index. It is only
  used for relevant proposals, which have an identifier.
\<close>

definition planned_request :: "host \<Rightarrow> (string \<rightharpoonup> string) \<Rightarrow> proposal \<Rightarrow> http_request" where
  "planned_request h index p =
     (case index (the (prop_id p)) of
        None \<Rightarrow>
          create_request (prop_name p)
            (description h (the (prop_id p)) (prop_url p) (prop_notes p)) (prop_stage p)
      | Some issueKey \<Rightarrow>
          update_request issueKey
            (description h (the (prop_id p)) (prop_url p) (prop_notes p)) (prop_stage p))"

text \<open>
  The pages of a query that starts with no earlier request: the offsets of the first
  \<open>n\<close> pages, the response to page \<open>k\<close> (the service has seen the pages before it), and
  the records of the first \<open>n\<close> pages in the order they are returned.
\<close>

definition page_offsets :: "nat \<Rightarrow> nat list" where
  "page_offsets n = map (\<lambda>k. 100 * k) [0..<n]"

definition page_response :: "service \<Rightarrow> nat \<Rightarrow> http_response" where
  "page_response srv k = srv (map search_request (page_offsets k)) (search_request (100 * k))"

definition issues_of :: "http_response \<Rightarrow> issue list" where
  "issues_of response = (case payload response of SearchData t issues \<Rightarrow> issues | _ \<Rightarrow> [])"

definition retrieved :: "service \<Rightarrow> nat \<Rightarrow> issue list" where
  "retrieved srv n = concat (map (\<lambda>k. issues_of (page_response srv k)) [0..<n])"

subsection \<open>Sample inputs\<close>

text \<open>Three lines of a bulk export; the second carries the placeholder identifier.\<close>

definition export_line_1 :: string where
  "export_line_1 = ''SJP-201,Story,id: foo-1 url: https://example.org/foo''"

definition export_line_2 :: string where
  "export_line_2 = ''SJP-202,Story,id: undefined url: https://example.org/bar''"

definition export_line_3 :: string where
  "export_line_3 = ''SJP-203,Story,id: foo-1 url: https://example.org/foo''"

text \<open>
  A finite part of \<^verbatim>\<open>Date.parse\<close>: four ISO date-times with their time values, and
  \<^verbatim>\<open>NaN\<close> for the text \<^verbatim>\<open>tbd\<close>; it is only applied to these five strings.
\<close>

definition sample_parse :: "string \<Rightarrow> time_value" where
  "sample_parse s =
     (case map_of
        [(''1970-01-01T00:00:00.000Z'', 0),
         (''2023-03-21T00:00:00.000Z'', 1679356800000),
         (''2023-07-11T00:00:00.000Z'', 1689033600000),
         (''2024-01-15T00:00:00.000Z'', 1705276800000)] s of
        None \<Rightarrow> NaN
      | Some t \<Rightarrow> TimeValue t)"

text \<open>Three hosts that differ in the default time zone: UTC, UTC+01:00 and UTC-05:00.\<close>

definition host_utc :: host where
  "host_utc = \<lparr>Date_parse = sample_parse, LocalTZA = (\<lambda>t. 0)\<rparr>"

definition host_plus1 :: host where
  "host_plus1 = \<lparr>Date_parse = sample_parse, LocalTZA = (\<lambda>t. 3600000)\<rparr>"

definition host_minus5 :: host where
  "host_minus5 = \<lparr>Date_parse = sample_parse, LocalTZA = (\<lambda>t. - 18000000)\<rparr>"

definition sample_notes :: "tc39_note list" where
  "sample_notes =
     [\<lparr>note_date = ''2024-01-15T00:00:00.000Z'', note_url = ''https://example.org/n3''\<rparr>,
      \<lparr>note_date = ''2023-03-21T00:00:00.000Z'', note_url = ''https://example.org/n1''\<rparr>,
      \<lparr>note_date = ''tbd'', note_url = ''https://example.org/n0''\<rparr>,
      \<lparr>note_date = ''2023-07-11T00:00:00.000Z'', note_url = ''https://example.org/n2''\<rparr>]"

definition epoch_note :: tc39_note where
  "epoch_note =
     \<lparr>note_date = ''1970-01-01T00:00:00.000Z'', note_url = ''https://example.org/epoch''\<rparr>"

definition jan15_note :: tc39_note where
  "jan15_note =
     \<lparr>note_date = ''2024-01-15T00:00:00.000Z'', note_url = ''https://example.org/n3''\<rparr>"

text \<open>
  Proposals: at stage 3; at stage 4 with the editions 2023 and 2024 and with none; at
  stage 0; at stage 2 with no identifier; and at a stage 1.5 that the table does not list.
\<close>

definition proposal_stage3 :: proposal where
  "proposal_stage3 =
     \<lparr>prop_id = Some ''foo-1'', prop_name = ''Foo'', prop_url = ''https://example.org/foo'',
      prop_stage = 3, prop_edition = None, prop_notes = [jan15_note]\<rparr>"

definition proposal_2023 :: proposal where
  "proposal_2023 =
     \<lparr>prop_id = Some ''old-1'', prop_name = ''Old'', prop_url = ''https://example.org/old'',
      prop_stage = 4, prop_edition = Some 2023, prop_notes = []\<rparr>"

definition proposal_2024 :: proposal where
  "proposal_2024 =
     \<lparr>prop_id = Some ''new-1'', prop_name = ''New'', prop_url = ''https://example.org/new'',
      prop_stage = 4, prop_edition = Some 2024, prop_notes = []\<rparr>"

definition proposal_no_edition :: proposal where
  "proposal_no_edition =
     \<lparr>prop_id = Some ''bar-1'', prop_name = ''Bar'', prop_url = ''https://example.org/bar'',
      prop_stage = 4, prop_edition = None, prop_notes = []\<rparr>"

definition proposal_stage0 :: proposal where
  "proposal_stage0 =
     \<lparr>prop_id = Some ''idea-1'', prop_name = ''Idea'', prop_url = ''https://example.org/idea'',
      prop_stage = 0, prop_edition = None, prop_notes = []\<rparr>"

definition proposal_no_id :: proposal where
  "proposal_no_id =
     \<lparr>prop_id = None, prop_name = ''Anon'', prop_url = ''https://example.org/anon'',
      prop_stage = 2, prop_edition = None, prop_notes = []\<rparr>"

definition proposal_stage_1_5 :: proposal where
  "proposal_stage_1_5 =
     \<lparr>prop_id = Some ''baz-1'', prop_name = ''Baz'', prop_url = ''https://example.org/baz'',
      prop_stage = 3 / 2, prop_edition = None, prop_notes = []\<rparr>"

text \<open>An index that knows the identifier \<^verbatim>\<open>foo-1\<close> only.\<close>

definition sample_index :: "string \<rightharpoonup> string" where
  "sample_index = [''foo-1'' \<mapsto> ''SJP-201'']"

text \<open>
  The services below are inputs of the model. In their responses the text of the
  \<^verbatim>\<open>text\<close> method is \<open>sample_text_method\<close>, an arbitrary short text: the properties
  are proved for every text.
\<close>

definition sample_text_method :: string where
  "sample_text_method = ''text() { }''"

text \<open>
  Services. The first answers every request with success. The second refuses every
  request with status 400, an empty status text and a JSON body with an \<^verbatim>\<open>errors\<close>
  member. The third answers 502 with a body that is not JSON. The fourth serves the
  first page of a query and fails on the second.
\<close>

definition service_ok :: service where
  "service_ok hist req =
     (if is_search req then
        \<lparr>status = 200, statusText = ''OK'', payload = SearchData 0 [],
         text_method = sample_text_method\<rparr>
      else if is_create req then
        \<lparr>status = 201, statusText = ''Created'', payload = IssueData (Some ''SJP-900'') None,
         text_method = sample_text_method\<rparr>
      else
        \<lparr>status = 204, statusText = ''No Content'', payload = NotJson,
         text_method = sample_text_method\<rparr>)"

definition service_refusing :: service where
  "service_refusing hist req =
     \<lparr>status = 400, statusText = [],
      payload = IssueData None (Some ''{\"summary\":\"Field is required\"}''),
      text_method = sample_text_method\<rparr>"

definition service_bad_gateway :: service where
  "service_bad_gateway hist req =
     \<lparr>status = 502, statusText = ''Bad Gateway'', payload = NotJson,
      text_method = sample_text_method\<rparr>"

definition sample_issue :: issue where
  "sample_issue =
     \<lparr>issue_key = ''SJP-201'',
      issue_description = Some ''id: foo-1\<newline>url: https://example.org/foo\<newline>notes:\<newline>''\<rparr>"


text \<open>
  A service that reports the total 250 on every page and returns full pages: 100, 100
  and 50 records.
\<close>

definition service_250 :: service where
  "service_250 hist req =
     \<lparr>status = 200, statusText = ''OK'',
      payload = SearchData 250 (replicate (min 100 (250 - 100 * length hist)) sample_issue),
      text_method = sample_text_method\<rparr>"

text \<open>
  A service that reports the total 250 on every page and returns 50 records a page, and
  the index built from the three pages of 50 records.
\<close>

definition service_short_pages :: service where
  "service_short_pages hist req =
     \<lparr>status = 200, statusText = ''OK'', payload = SearchData 250 (replicate 50 sample_issue),
      text_method = sample_text_method\<rparr>"

definition short_pages_index :: "string \<rightharpoonup> string" where
  "short_pages_index = fold set_issue (retrieved service_short_pages 3) Map.empty"


section \<open>Properties\<close>

subsection \<open>Building an index: the last association of an identifier wins\<close>

lemma fold_upd_last:
  assumes step: "\<And>x m. step x m = (case entry x of None \<Rightarrow> m | Some (i, k) \<Rightarrow> m(i \<mapsto> k))"
  shows "fold step xs m i =
           (if filter (\<lambda>x. \<exists>k. entry x = Some (i, k)) xs = [] then m i
            else map_option snd (entry (last (filter (\<lambda>x. \<exists>k. entry x = Some (i, k)) xs))))"
proof (induction xs rule: rev_induct)
  case Nil
  show ?case by simp
next
  case (snoc x xs)
  show ?case
  proof (cases "\<exists>k. entry x = Some (i, k)")
    case True
    then obtain k where k: "entry x = Some (i, k)" by blast
    have "fold step (xs @ [x]) m i = Some k"
      by (simp add: step k)
    then show ?thesis
      by (simp add: k)
  next
    case False
    have "fold step (xs @ [x]) m i = fold step xs m i"
    proof (cases "entry x")
      case None
      then show ?thesis by (simp add: step)
    next
      case (Some ik)
      obtain j k where ik: "ik = (j, k)" by (cases ik)
      with Some False have "j \<noteq> i" by auto
      with Some ik show ?thesis by (simp add: step)
    qed
    then show ?thesis
      using snoc.IH False by simp
  qed
qed

lemma csv_line_entry:
  "csv_line line m = (case csv_entry line of None \<Rightarrow> m | Some (i, k) \<Rightarrow> m(i \<mapsto> k))"
  by (simp add: csv_line_def csv_entry_def split: option.splits)

lemma set_issue_entry:
  "set_issue x m = (case issue_entry x of None \<Rightarrow> m | Some (i, k) \<Rightarrow> m(i \<mapsto> k))"
  by (auto simp add: set_issue_def issue_entry_def match_id_def id_at_def split: option.splits)

lemma first_match_Some_iff:
  "first_match pat s \<noteq> None \<longleftrightarrow> (\<exists>pre post. s = pre @ post \<and> pat post \<noteq> None)"
proof (induction s)
  case Nil
  show ?case by simp
next
  case (Cons c cs)
  show ?case
  proof (cases "pat (c # cs)")
    case (Some r)
    then have "c # cs = [] @ (c # cs) \<and> pat (c # cs) \<noteq> None" by simp
    then have "\<exists>pre post. c # cs = pre @ post \<and> pat post \<noteq> None" by blast
    with Some show ?thesis by simp
  next
    case None
    have "(\<exists>pre post. c # cs = pre @ post \<and> pat post \<noteq> None)
            \<longleftrightarrow> (\<exists>pre post. cs = pre @ post \<and> pat post \<noteq> None)"
    proof
      assume "\<exists>pre post. c # cs = pre @ post \<and> pat post \<noteq> None"
      then obtain pre post where pp: "c # cs = pre @ post" "pat post \<noteq> None" by blast
      show "\<exists>pre post. cs = pre @ post \<and> pat post \<noteq> None"
      proof (cases pre)
        case Nil
        with pp None show ?thesis by simp
      next
        case (Cons a pre')
        with pp have "cs = pre' @ post" by simp
        with pp(2) show ?thesis by blast
      qed
    next
      assume "\<exists>pre post. cs = pre @ post \<and> pat post \<noteq> None"
      then obtain pre post where "cs = pre @ post" "pat post \<noteq> None" by blast
      then have "c # cs = (c # pre) @ post \<and> pat post \<noteq> None" by simp
      then show "\<exists>pre post. c # cs = pre @ post \<and> pat post \<noteq> None" by blast
    qed
    with None Cons.IH show ?thesis by simp
  qed
qed

lemma key_at_iff:
  "key_at s \<noteq> None \<longleftrightarrow> (\<exists>d rest. s = ''SJP-'' @ d # rest \<and> is_digit d)"
proof
  assume a: "key_at s \<noteq> None"
  then have t: "take 4 s = ''SJP-''" and w: "takeWhile is_digit (drop 4 s) \<noteq> []"
    by (auto simp: key_at_def split: if_splits)
  from w obtain d rest where dr: "drop 4 s = d # rest" "is_digit d"
    by (cases "drop 4 s") (auto split: if_splits)
  have "s = take 4 s @ drop 4 s" by simp
  with t dr show "\<exists>d rest. s = ''SJP-'' @ d # rest \<and> is_digit d" by metis
next
  assume "\<exists>d rest. s = ''SJP-'' @ d # rest \<and> is_digit d"
  then show "key_at s \<noteq> None" by (auto simp: key_at_def)
qed

lemma id_at_iff:
  "id_at s \<noteq> None \<longleftrightarrow> (\<exists>c rest. s = ''id: '' @ c # rest \<and> is_id_char c)"
proof
  assume a: "id_at s \<noteq> None"
  then have t: "take 4 s = ''id: ''" and w: "takeWhile is_id_char (drop 4 s) \<noteq> []"
    by (auto simp: id_at_def split: if_splits)
  from w obtain d rest where dr: "drop 4 s = d # rest" "is_id_char d"
    by (cases "drop 4 s") (auto split: if_splits)
  have "s = take 4 s @ drop 4 s" by simp
  with t dr show "\<exists>d rest. s = ''id: '' @ d # rest \<and> is_id_char d" by metis
next
  assume "\<exists>d rest. s = ''id: '' @ d # rest \<and> is_id_char d"
  then show "id_at s \<noteq> None" by (auto simp: id_at_def)
qed

lemma match_key_iff:
  "match_key line \<noteq> None \<longleftrightarrow>
     (\<exists>pre d rest. line = pre @ ''SJP-'' @ d # rest \<and> is_digit d)"
  unfolding match_key_def first_match_Some_iff key_at_iff by blast

lemma match_id_iff:
  "match_id line \<noteq> None \<longleftrightarrow>
     (\<exists>pre c rest. line = pre @ ''id: '' @ c # rest \<and> is_id_char c)"
  unfolding match_id_def first_match_Some_iff id_at_iff by blast

subsection \<open>The index from a bulk export\<close>

text \<open>
  Claim C7. In \<^verbatim>\<open>parseJiraCsv\<close> a line adds an association exactly when it contains a
  key matching \<^verbatim>\<open>SJP-[0-9]+\<close> and a marker \<^verbatim>\<open>id: \<close> followed by an identifier, and
  the identifier captured is not \<^verbatim>\<open>undefined\<close>; the association is from the captured
  identifier to the captured key. The index maps an identifier to the key of the last
  line that contributes an association for it, and to nothing when no line does.
\<close>

theorem parseJiraCsv_last_wins:
  "csv_line line m = (case csv_entry line of None \<Rightarrow> m | Some (i, k) \<Rightarrow> m(i \<mapsto> k))
   \<and> (csv_entry line = Some (ident, key) \<longleftrightarrow>
        match_key line = Some key \<and> match_id line = Some ident \<and> ident \<noteq> ''undefined'')
   \<and> (match_key line \<noteq> None \<longleftrightarrow>
        (\<exists>pre d rest. line = pre @ ''SJP-'' @ d # rest \<and> is_digit d))
   \<and> (match_id line \<noteq> None \<longleftrightarrow>
        (\<exists>pre c rest. line = pre @ ''id: '' @ c # rest \<and> is_id_char c))
   \<and> parseJiraCsv lines ident =
        (if filter (\<lambda>l. \<exists>k. csv_entry l = Some (ident, k)) lines = [] then None
         else map_option snd
                (csv_entry (last (filter (\<lambda>l. \<exists>k. csv_entry l = Some (ident, k)) lines))))"
proof -
  have "csv_entry line = Some (ident, key) \<longleftrightarrow>
        match_key line = Some key \<and> match_id line = Some ident \<and> ident \<noteq> ''undefined''"
    by (auto simp: csv_entry_def split: option.splits)
  moreover have "parseJiraCsv lines ident =
        (if filter (\<lambda>l. \<exists>k. csv_entry l = Some (ident, k)) lines = [] then None
         else map_option snd
                (csv_entry (last (filter (\<lambda>l. \<exists>k. csv_entry l = Some (ident, k)) lines))))"
    unfolding parseJiraCsv_def
    using fold_upd_last [of csv_line csv_entry lines Map.empty ident, OF csv_line_entry]
    by simp
  ultimately show ?thesis
    using csv_line_entry match_key_iff match_id_iff by blast
qed

theorem parseJiraCsv_last_wins_witness:
  "parseJiraCsv [export_line_1, export_line_2] ''foo-1'' = Some ''SJP-201''
   \<and> parseJiraCsv [export_line_1, export_line_2] ''undefined'' = None
   \<and> csv_entry export_line_2 = None
   \<and> parseJiraCsv [export_line_1, export_line_2, export_line_3] ''foo-1'' = Some ''SJP-203''"
proof -
  have e1: "csv_entry export_line_1 = Some (''foo-1'', ''SJP-201'')" by code_simp
  have e2: "csv_entry export_line_2 = None" by code_simp
  have e3: "csv_entry export_line_3 = Some (''foo-1'', ''SJP-203'')" by code_simp
  show ?thesis
    using parseJiraCsv_last_wins [of export_line_1 Map.empty "''foo-1''" "''SJP-201''" "[export_line_1, export_line_2]"]
      parseJiraCsv_last_wins [of export_line_1 Map.empty "''undefined''" "''SJP-201''" "[export_line_1, export_line_2]"]
      parseJiraCsv_last_wins [of export_line_1 Map.empty "''foo-1''" "''SJP-201''" "[export_line_1, export_line_2, export_line_3]"]
    by (simp add: e1 e2 e3)
qed

subsection \<open>Decimal numerals\<close>

lemma digit_nth: "k < 10 \<Longrightarrow> is_digit (''0123456789'' ! k)"
proof -
  assume "k < 10"
  then have "k \<in> {0, 1, 2, 3, 4, 5, 6, 7, 8, 9}" by auto
  then show ?thesis by (auto simp: is_digit_def)
qed

lemma show_nat_digits: "c \<in> set (show_nat n) \<Longrightarrow> is_digit c"
proof (induction n arbitrary: c rule: show_nat.induct)
  case (1 n)
  show ?case
  proof (cases "n < 10")
    case True
    with "1.prems" have "c = ''0123456789'' ! n" by (subst (asm) show_nat.simps) simp
    with True show ?thesis using digit_nth by blast
  next
    case False
    with "1.prems" have "c \<in> set (show_nat (n div 10)) \<or> c = ''0123456789'' ! (n mod 10)"
      by (subst (asm) show_nat.simps) auto
    moreover have "n mod 10 < 10" by simp
    ultimately show ?thesis using "1.IH" False digit_nth by blast
  qed
qed

lemma length_show_nat_1: "n < 10 \<Longrightarrow> length (show_nat n) = 1"
  by (subst show_nat.simps) simp

lemma length_show_nat_2: "10 \<le> n \<Longrightarrow> n < 100 \<Longrightarrow> length (show_nat n) = 2"
  by (subst show_nat.simps) (simp add: length_show_nat_1)

lemma length_show_nat_3: "100 \<le> n \<Longrightarrow> n < 1000 \<Longrightarrow> length (show_nat n) = 3"
  by (subst show_nat.simps) (simp add: length_show_nat_2)

lemma length_show_nat_4: "1000 \<le> n \<Longrightarrow> n < 10000 \<Longrightarrow> length (show_nat n) = 4"
  by (subst show_nat.simps) (simp add: length_show_nat_3)

lemma length_pad2: "n < 100 \<Longrightarrow> length (pad2 n) = 2"
  by (cases "n < 10") (simp_all add: pad2_def length_show_nat_1 length_show_nat_2)

lemma pad2_digits: "c \<in> set (pad2 n) \<Longrightarrow> is_digit c"
  by (auto simp: pad2_def is_digit_def dest: show_nat_digits split: if_splits)

subsection \<open>The calendar date of a day number\<close>

lemma year_day_range:
  fixes r4 :: int
  assumes "0 \<le> r4" "r4 \<le> 1460"
  shows "0 \<le> r4 - min 3 (r4 div 365) * 365 \<and> r4 - min 3 (r4 div 365) * 365 \<le> 365"
proof (cases "r4 div 365 \<le> 3")
  case True
  then have eq: "r4 - min 3 (r4 div 365) * 365 = r4 mod 365"
    by (simp add: min_def minus_div_mult_eq_mod)
  have "0 \<le> r4 mod 365" "r4 mod 365 < 365" by simp_all
  then show ?thesis unfolding eq by simp
next
  case False
  then have "4 \<le> r4 div 365" by simp
  then have "1460 \<le> r4" by linarith
  with assms have "r4 = 1460" by simp
  then show ?thesis by simp
qed

lemma month_index_range:
  fixes r1 :: int
  assumes "0 \<le> r1" "r1 \<le> 365"
  shows "0 \<le> (5 * r1 + 2) div 153 \<and> (5 * r1 + 2) div 153 \<le> 11"
  using assms by linarith

lemma month_day_range:
  fixes r1 :: int
  assumes "0 \<le> r1"
  shows "1 \<le> r1 - (153 * ((5 * r1 + 2) div 153) + 2) div 5 + 1
         \<and> r1 - (153 * ((5 * r1 + 2) div 153) + 2) div 5 + 1 \<le> 31"
  using assms by linarith

lemma mod_1461_range:
  fixes x :: int
  shows "0 \<le> x mod 1461 \<and> x mod 1461 \<le> 1460"
proof -
  have "0 \<le> x mod 1461" "x mod 1461 < 1461" by simp_all
  then show ?thesis by linarith
qed

lemma march_year_day_range:
  "0 \<le> snd (march_year_day days) \<and> snd (march_year_day days) \<le> 365"
  unfolding march_year_day_def Let_def snd_conv
  by (rule year_day_range) (simp_all only: mod_1461_range)

lemma civil_from_days_range:
  assumes "civil_from_days days = (y, m, d)"
  shows "1 \<le> m \<and> m \<le> 12 \<and> 1 \<le> d \<and> d \<le> 31"
proof -
  obtain y0 r1 where yd: "march_year_day days = (y0, r1)"
    by (cases "march_year_day days")
  define mp where "mp = (5 * r1 + 2) div 153"
  have r1: "0 \<le> r1" "r1 \<le> 365"
    using march_year_day_range [of days] by (simp_all add: yd)
  have mp: "0 \<le> mp" "mp \<le> 11"
    using month_index_range [OF r1] by (simp_all only: mp_def)
  have d: "1 \<le> r1 - (153 * mp + 2) div 5 + 1" "r1 - (153 * mp + 2) div 5 + 1 \<le> 31"
    using month_day_range [OF r1(1)] by (simp_all only: mp_def)
  have "civil_from_days days =
          (if (if mp < 10 then mp + 3 else mp - 9) \<le> 2 then y0 + 1 else y0,
           if mp < 10 then mp + 3 else mp - 9, r1 - (153 * mp + 2) div 5 + 1)"
    by (simp only: civil_from_days_def yd Let_def prod.case mp_def)
  with assms have m: "m = (if mp < 10 then mp + 3 else mp - 9)"
    and dd: "d = r1 - (153 * mp + 2) div 5 + 1"
    by (simp_all only: prod.inject)
  show ?thesis
  proof (cases "mp < 10")
    case True
    with m mp dd d show ?thesis by simp
  next
    case False
    with m mp dd d show ?thesis by simp
  qed
qed

lemma date_text_shape:
  assumes "length a = 4" "length b = 2" "length c = 2"
    and "\<And>x. x \<in> set a \<union> set b \<union> set c \<Longrightarrow> is_digit x"
  shows "is_YYYY_MM_DD (a @ ''-'' @ b @ ''-'' @ c)"
proof -
  from assms(1) obtain a0 a1 a2 a3 where a: "a = [a0, a1, a2, a3]"
    by (auto simp: length_Suc_conv numeral_eq_Suc)
  from assms(2) obtain b0 b1 where b: "b = [b0, b1]"
    by (auto simp: length_Suc_conv numeral_eq_Suc)
  from assms(3) obtain c0 c1 where c: "c = [c0, c1]"
    by (auto simp: length_Suc_conv numeral_eq_Suc)
  show ?thesis
    using assms(4) by (simp add: a b c is_YYYY_MM_DD_def)
qed

subsection \<open>The rendered description\<close>

lemma foldl_append_concat:
  "foldl (\<lambda>acc x. acc @ f x) a xs = a @ concat (map f xs)"
  by (induction xs arbitrary: a) simp_all

lemma noteString_concat:
  "noteString h ns = ''notes:'' @ [CHR 0x0A] @ concat (map (note_line h) (sorted_notes h ns))"
  by (simp add: noteString_def foldl_append_concat)

lemma collect_notes_filter:
  "collect_notes h ns =
     map (\<lambda>n. \<lparr>dn_date = (case Date_parse h (note_date n) of TimeValue t \<Rightarrow> t | NaN \<Rightarrow> 0),
                dn_url = note_url n\<rparr>)
       (filter (\<lambda>n. truthy (Date_parse h (note_date n))) ns)"
  by (induction ns) (auto split: time_value.splits)

lemma collect_notes_cong:
  "(\<And>n. n \<in> set ns \<Longrightarrow> Date_parse h' (note_date n) = Date_parse h (note_date n))
   \<Longrightarrow> collect_notes h' ns = collect_notes h ns"
  by (induction ns) (simp_all split: time_value.splits)

lemma DTF_format_local_day:
  "local_day h t = local_day h' t' \<Longrightarrow> DTF_format h t = DTF_format h' t'"
  by (simp add: DTF_format_def)

lemma sorted_notes_sorted: "sorted (map dn_date (sorted_notes h ns))"
  by (simp add: sorted_notes_def)

lemma sorted_notes_stable:
  "filter (\<lambda>n. dn_date n = t) (sorted_notes h ns)
     = filter (\<lambda>n. dn_date n = t) (collect_notes h ns)"
  by (simp add: sorted_notes_def sort_key_stable)

lemma sorted_notes_set: "set (sorted_notes h ns) = set (collect_notes h ns)"
  by (simp add: sorted_notes_def)

lemma description_agree:
  assumes parse: "\<And>n. n \<in> set ns \<Longrightarrow> Date_parse h' (note_date n) = Date_parse h (note_date n)"
    and zone: "\<And>n. n \<in> set (collect_notes h ns) \<Longrightarrow> local_day h' (dn_date n) = local_day h (dn_date n)"
  shows "description h' ident url ns = description h ident url ns"
proof -
  have c: "collect_notes h' ns = collect_notes h ns"
    using parse by (rule collect_notes_cong)
  then have s: "sorted_notes h' ns = sorted_notes h ns"
    by (simp add: sorted_notes_def)
  have line: "note_line h' n = note_line h n" if "n \<in> set (sorted_notes h ns)" for n
  proof -
    from that have "n \<in> set (collect_notes h ns)"
      by (simp add: sorted_notes_def)
    then have "DTF_format h' (dn_date n) = DTF_format h (dn_date n)"
      using zone DTF_format_local_day by blast
    then show ?thesis by (simp add: note_line_def)
  qed
  have eq: "map (note_line h') (sorted_notes h ns) = map (note_line h) (sorted_notes h ns)"
    by (rule map_cong [OF refl]) (rule line)
  show ?thesis
    by (simp only: description_def noteString_concat s eq)
qed
lemma DTF_format_shape:
  assumes "1000 \<le> local_year h t" "local_year h t \<le> 9999"
  shows "is_YYYY_MM_DD (DTF_format h t)"
proof -
  obtain y m d where c: "civil_from_days (local_day h t) = (y, m, d)"
    by (cases "civil_from_days (local_day h t)")
  from c assms have y: "1000 \<le> y" "y \<le> 9999"
    by (simp_all add: local_year_def)
  from c have md: "1 \<le> m" "m \<le> 12" "1 \<le> d" "d \<le> 31"
    using civil_from_days_range by blast+
  have f: "DTF_format h t = show_nat (nat y) @ ''-'' @ pad2 (nat m) @ ''-'' @ pad2 (nat d)"
    using y by (simp add: DTF_format_def c)
  have "length (show_nat (nat y)) = 4"
    using y by (intro length_show_nat_4) simp_all
  moreover have "length (pad2 (nat m)) = 2" "length (pad2 (nat d)) = 2"
    using md by (simp_all add: length_pad2)
  moreover have "is_digit x"
    if "x \<in> set (show_nat (nat y)) \<union> set (pad2 (nat m)) \<union> set (pad2 (nat d))" for x
    using that show_nat_digits pad2_digits by blast
  ultimately show ?thesis
    unfolding f by (rule date_text_shape)
qed

lemma truthy_iff: "truthy v \<longleftrightarrow> (\<exists>t. v = TimeValue t \<and> t \<noteq> 0)"
  by (cases v) simp_all

text \<open>
  What the renderer does: the description is the three header lines followed by one line
  for every note whose parsed date is truthy, that is a time value other than 0, in the
  stable order of the time values.
\<close>

lemma description_lines:
  "description h ident url ns =
     ''id: '' @ ident @ [CHR 0x0A] @ ''url: '' @ url @ [CHR 0x0A] @ ''notes:'' @ [CHR 0x0A]
       @ concat (map (\<lambda>n. ''  - '' @ DTF_format h (dn_date n) @ '': '' @ dn_url n @ [CHR 0x0A])
           (sort_key dn_date
              (map (\<lambda>n. \<lparr>dn_date = (case Date_parse h (note_date n) of
                                         TimeValue t \<Rightarrow> t | NaN \<Rightarrow> 0),
                           dn_url = note_url n\<rparr>)
                 (filter (\<lambda>n. truthy (Date_parse h (note_date n))) ns))))"
proof -
  have "note_line h = (\<lambda>n. ''  - '' @ DTF_format h (dn_date n) @ '': '' @ dn_url n @ [CHR 0x0A])"
    by (rule ext) (simp add: note_line_def)
  then show ?thesis
    by (simp add: description_def noteString_concat sorted_notes_def collect_notes_filter)
qed

subsection \<open>Evaluating the samples\<close>

lemma sample_parse_values:
  "sample_parse ''1970-01-01T00:00:00.000Z'' = TimeValue 0"
  "sample_parse ''2023-03-21T00:00:00.000Z'' = TimeValue 1679356800000"
  "sample_parse ''2023-07-11T00:00:00.000Z'' = TimeValue 1689033600000"
  "sample_parse ''2024-01-15T00:00:00.000Z'' = TimeValue 1705276800000"
  "sample_parse ''tbd'' = NaN"
  by (simp_all add: sample_parse_def)

lemma collect_sample_notes:
  "collect_notes host_utc sample_notes =
     [\<lparr>dn_date = 1705276800000, dn_url = ''https://example.org/n3''\<rparr>,
      \<lparr>dn_date = 1679356800000, dn_url = ''https://example.org/n1''\<rparr>,
      \<lparr>dn_date = 1689033600000, dn_url = ''https://example.org/n2''\<rparr>]"
  by (simp add: sample_notes_def host_utc_def sample_parse_values)

lemma march_year_day_19737: "march_year_day 19737 = (2023, 320)"
  by code_simp

lemma march_year_day_19736: "march_year_day 19736 = (2023, 319)"
  by code_simp

lemma civil_19737: "civil_from_days 19737 = (2024, 1, 15)"
  by (simp add: civil_from_days_def march_year_day_19737)

lemma civil_19736: "civil_from_days 19736 = (2024, 1, 14)"
  by (simp add: civil_from_days_def march_year_day_19736)

lemma show_nat_samples:
  "show_nat (Suc 0) = ''1''" "show_nat 14 = ''14''" "show_nat 15 = ''15''"
  "show_nat 2024 = ''2024''"
  by (simp_all add: show_nat.simps)

lemma format_jan15_utc: "DTF_format host_utc 1705276800000 = ''2024-01-15''"
  by (simp add: DTF_format_def local_day_def host_utc_def civil_19737 pad2_def show_nat_samples)

lemma format_jan15_minus5: "DTF_format host_minus5 1705276800000 = ''2024-01-14''"
  by (simp add: DTF_format_def local_day_def host_minus5_def civil_19736 pad2_def show_nat_samples)

lemma collect_jan15:
  "collect_notes host_utc [jan15_note]
     = [\<lparr>dn_date = 1705276800000, dn_url = ''https://example.org/n3''\<rparr>]"
  "collect_notes host_minus5 [jan15_note]
     = [\<lparr>dn_date = 1705276800000, dn_url = ''https://example.org/n3''\<rparr>]"
  by (simp_all add: jan15_note_def host_utc_def host_minus5_def sample_parse_values)

subsection \<open>Determinism of the description, and the time zone of its dates\<close>

text \<open>
  Claim C1, as amended. The description is a function of the identifier, the URL, the
  notes and the host: two hosts that parse the dates of the notes alike and put the
  retained time values on the same local days render the same text. A date is printed
  from the local day of the time value in the host's default time zone and from nothing
  else, as year, month and day; for local years from 1000 to 9999 the text has the form
  YYYY-MM-DD.
\<close>

theorem description_deterministic:
  "((\<forall>n \<in> set ns. Date_parse h' (note_date n) = Date_parse h (note_date n))
      \<and> (\<forall>n \<in> set (collect_notes h ns). local_day h' (dn_date n) = local_day h (dn_date n))
     \<longrightarrow> description h' ident url ns = description h ident url ns)
   \<and> (1000 \<le> local_year h t \<and> local_year h t \<le> 9999 \<longrightarrow> is_YYYY_MM_DD (DTF_format h t))
   \<and> (local_day h t = local_day h' t' \<longrightarrow> DTF_format h t = DTF_format h' t')"
  using description_agree [of ns h' h ident url] DTF_format_shape [of h t]
    DTF_format_local_day [of h t h' t']
  by blast

theorem description_deterministic_witness:
  "description host_plus1 ''foo-1'' ''https://example.org/foo'' sample_notes
     = description host_utc ''foo-1'' ''https://example.org/foo'' sample_notes
   \<and> is_YYYY_MM_DD (DTF_format host_utc 1705276800000)
   \<and> DTF_format host_utc 1705276800000 = DTF_format host_plus1 1705276800000"
proof -
  have p: "\<forall>n \<in> set sample_notes. Date_parse host_plus1 (note_date n) = Date_parse host_utc (note_date n)"
    by (simp add: host_plus1_def host_utc_def)
  have z: "\<forall>n \<in> set (collect_notes host_utc sample_notes).
             local_day host_plus1 (dn_date n) = local_day host_utc (dn_date n)"
    unfolding collect_sample_notes
    by (simp add: local_day_def host_plus1_def host_utc_def)
  have y: "1000 \<le> local_year host_utc 1705276800000 \<and> local_year host_utc 1705276800000 \<le> 9999"
    by (simp add: local_year_def local_day_def host_utc_def civil_19737)
  have d: "local_day host_utc 1705276800000 = local_day host_plus1 1705276800000"
    by (simp add: local_day_def host_plus1_def host_utc_def)
  show ?thesis
    using description_deterministic [of sample_notes host_plus1 host_utc "''foo-1''"
        "''https://example.org/foo''" 1705276800000 1705276800000] p z y d
    by blast
qed

text \<open>
  Claim C1, as stated, fails. The time zone is not fixed: the same identifier, URL and notes, parsed alike, give a
  different description on a host at UTC-05:00 than on a host at UTC.
\<close>

theorem description_depends_on_time_zone:
  "description host_utc ''foo-1'' ''https://example.org/foo'' [jan15_note]
     = ''id: foo-1\<newline>url: https://example.org/foo\<newline>notes:\<newline>  - 2024-01-15: https://example.org/n3\<newline>''
   \<and> description host_minus5 ''foo-1'' ''https://example.org/foo'' [jan15_note]
     = ''id: foo-1\<newline>url: https://example.org/foo\<newline>notes:\<newline>  - 2024-01-14: https://example.org/n3\<newline>''
   \<and> Date_parse host_utc = Date_parse host_minus5"
  unfolding description_def noteString_def sorted_notes_def collect_jan15
  by (simp add: note_line_def format_jan15_utc format_jan15_minus5)
    (simp add: host_utc_def host_minus5_def)

subsection \<open>A note stamped at the epoch\<close>

text \<open>
  Claim C2 at a failing input. The date of \<open>epoch_note\<close> parses to the time value 0, a
  valid point in time, and \<^verbatim>\<open>if (date)\<close> takes 0 for false: the note is left out of
  the description.
\<close>

theorem epoch_note_is_dropped:
  "Date_parse host_utc (note_date epoch_note) = TimeValue 0
   \<and> collect_notes host_utc [epoch_note] = []
   \<and> description host_utc ''foo-1'' ''https://example.org/foo'' [epoch_note]
        = ''id: foo-1\<newline>url: https://example.org/foo\<newline>notes:\<newline>''"
  by (simp add: description_def noteString_def sorted_notes_def epoch_note_def host_utc_def
      sample_parse_values)

subsection \<open>The gateway calls and the body of the loop\<close>

lemma createIssue_calls:
  "calls (fst (createIssue srv name d stage s)) = calls s @ [create_request name d stage]"
  by (simp add: createIssue_def fetch_def console_log_def split: payload.splits)

lemma updateIssue_calls:
  "calls (fst (updateIssue srv k d stage s)) = calls s @ [update_request k d stage]"
  by (simp add: updateIssue_def fetch_def console_log_def)

lemma updateIssue_returns: "snd (updateIssue srv k d stage s) = Inr ()"
  by (simp add: updateIssue_def fetch_def)

lemma createIssue_returns:
  "payload (srv (calls s) (create_request name d stage)) \<noteq> NotJson
   \<Longrightarrow> snd (createIssue srv name d stage s) = Inr ()"
  by (simp add: createIssue_def fetch_def split: payload.splits)

lemma createIssue_throws:
  "payload (srv (calls s) (create_request name d stage)) = NotJson
   \<Longrightarrow> createIssue srv name d stage s
         = (s\<lparr>calls := calls s @ [create_request name d stage]\<rparr>, Inl SyntaxError)"
  by (simp add: createIssue_def fetch_def)

lemma process_proposal_skip:
  "\<not> relevant p \<Longrightarrow> process_proposal srv h issueKeys p s = (s, Inr ())"
  by (auto simp: relevant_def process_proposal_def)


lemma process_proposal_create:
  assumes "relevant p" "prop_id p = Some ident" "index ident = None"
  shows "process_proposal srv h (Some index) p s =
           createIssue srv (prop_name p) (description h ident (prop_url p) (prop_notes p))
             (prop_stage p) s"
  using assms by (auto simp: relevant_def process_proposal_def)

lemma process_proposal_update:
  assumes "relevant p" "prop_id p = Some ident" "index ident = Some issueKey"
  shows "process_proposal srv h (Some index) p s =
           updateIssue srv issueKey (description h ident (prop_url p) (prop_notes p))
             (prop_stage p) s"
  using assms by (auto simp: relevant_def process_proposal_def)

lemma process_proposal_calls:
  assumes "relevant p"
  shows "calls (fst (process_proposal srv h (Some index) p s))
           = calls s @ [planned_request h index p]"
proof -
  from assms obtain ident where i: "prop_id p = Some ident"
    by (auto simp: relevant_def)
  show ?thesis
  proof (cases "index ident")
    case None
    with assms i show ?thesis
      by (simp add: process_proposal_create createIssue_calls planned_request_def)
  next
    case (Some issueKey)
    with assms i show ?thesis
      by (simp add: process_proposal_update updateIssue_calls planned_request_def)
  qed
qed

lemma is_create_create_request: "is_create (create_request name d stage)"
  by (simp add: is_create_def create_request_def)

lemma is_update_update_request: "is_update (update_request k d stage)"
  by (simp add: is_update_def update_request_def)

lemma not_is_update_create_request: "\<not> is_update (create_request name d stage)"
  by (simp add: is_update_def create_request_def)

lemma not_is_create_update_request: "\<not> is_create (update_request k d stage)"
  by (simp add: is_create_def update_request_def)


lemma create_request_fields:
  "req_method (create_request name d stage) = ''POST''"
  "req_url (create_request name d stage) = API @ ''/issue''"
  "path [''fields'', ''summary''] (req_body (create_request name d stage)) = Some (JStr name)"
  "path [''fields'', ''description''] (req_body (create_request name d stage)) = Some (JStr d)"
  "path [''fields'', ''parent''] (req_body (create_request name d stage)) = Some (parent_of stage)"
  "path [''fields'', ''components''] (req_body (create_request name d stage))
     = Some (JArr [JObj [(''name'', JStr COMPONENT)]])"
  "path [''fields'', ''project'', ''key''] (req_body (create_request name d stage))
     = Some (JStr PROJECTKEY)"
  by (simp_all add: create_request_def)

lemma update_request_fields:
  "req_method (update_request k d stage) = ''PUT''"
  "req_url (update_request k d stage) = API @ ''/issue/'' @ k"
  "path [''update'', ''description''] (req_body (update_request k d stage))
     = Some (JArr [JObj [(''set'', JStr d)]])"
  "path [''fields'', ''parent''] (req_body (update_request k d stage)) = Some (parent_of stage)"
  by (simp_all add: update_request_def)

lemma parent_of_key: "json_member ''key'' (parent_of stage) = map_option JStr (STAGE_EPICS stage)"
  by (simp add: parent_of_def split: option.splits)

lemma update_request_keys:
  "json_keys (req_body (update_request k d stage)) =
     [''fields'', ''parent''] @ (case STAGE_EPICS stage of None \<Rightarrow> [] | Some e \<Rightarrow> [''key''])
       @ [''update'', ''description'', ''set'']"
  by (cases "STAGE_EPICS stage") (simp_all add: update_request_def parent_of_def)

lemma update_request_no_summary:
  "''summary'' \<notin> set (json_keys (req_body (update_request k d stage)))"
  by (cases "STAGE_EPICS stage") (simp_all add: update_request_keys)

lemma create_request_parent_key:
  "path [''fields'', ''parent'', ''key''] (req_body (create_request name d stage))
     = map_option JStr (STAGE_EPICS stage)"
  by (cases "STAGE_EPICS stage") (simp_all add: create_request_def parent_of_def)

lemma update_request_parent_key:
  "path [''fields'', ''parent'', ''key''] (req_body (update_request k d stage))
     = map_option JStr (STAGE_EPICS stage)"
  by (cases "STAGE_EPICS stage") (simp_all add: update_request_def parent_of_def)

lemma proposals_loop_skip_all:
  "(\<And>p. p \<in> set ps \<Longrightarrow> \<not> relevant p) \<Longrightarrow> proposals_loop srv h issueKeys ps s = (s, Inr ())"
  by (induction ps) (simp_all add: process_proposal_skip)

lemma relevant_samples:
  "relevant proposal_stage3" "\<not> relevant proposal_2023" "relevant proposal_2024"
  "relevant proposal_no_edition" "\<not> relevant proposal_stage0" "\<not> relevant proposal_no_id"
  "relevant proposal_stage_1_5"
  by (simp_all add: relevant_def edition_before_def proposal_stage3_def proposal_2023_def
      proposal_2024_def proposal_no_edition_def proposal_stage0_def proposal_no_id_def
      proposal_stage_1_5_def)

lemma sample_index_values:
  "sample_index ''foo-1'' = Some ''SJP-201''" "sample_index ''new-1'' = None"
  "sample_index ''bar-1'' = None" "sample_index ''baz-1'' = None"
  by (simp_all add: sample_index_def)

subsection \<open>Create or update\<close>

text \<open>
  Claim C3. For a proposal that passes the three tests of the loop body and has the
  identifier \<open>ident\<close>, with an index at hand: when the index has no entry for \<open>ident\<close> the
  body makes exactly one request, a create request whose summary is the proposal's name,
  whose description is the rendered text, whose parent key is the entry of the stage in
  \<^verbatim>\<open>STAGE_EPICS\<close> and whose component is \<^verbatim>\<open>TC39 Proposals\<close>; when the index maps
  \<open>ident\<close> to a key, the body makes exactly one request, an update request to the URL of
  that key, which sets the description to the rendered text and the parent to the entry of
  the stage, and which has no property named \<^verbatim>\<open>summary\<close> anywhere in its body.
\<close>

theorem create_or_update:
  assumes "relevant p" and "prop_id p = Some ident"
  shows
    "(index ident = None \<longrightarrow>
        calls (fst (process_proposal srv h (Some index) p s))
          = calls s @ [create_request (prop_name p)
                         (description h ident (prop_url p) (prop_notes p)) (prop_stage p)])
     \<and> (index ident = Some issueKey \<longrightarrow>
        calls (fst (process_proposal srv h (Some index) p s))
          = calls s @ [update_request issueKey
                         (description h ident (prop_url p) (prop_notes p)) (prop_stage p)])
     \<and> is_create (create_request name d stage) \<and> \<not> is_update (create_request name d stage)
     \<and> path [''fields'', ''summary''] (req_body (create_request name d stage)) = Some (JStr name)
     \<and> path [''fields'', ''description''] (req_body (create_request name d stage))
          = Some (JStr d)
     \<and> path [''fields'', ''parent'', ''key''] (req_body (create_request name d stage))
          = map_option JStr (STAGE_EPICS stage)
     \<and> path [''fields'', ''components''] (req_body (create_request name d stage))
          = Some (JArr [JObj [(''name'', JStr ''TC39 Proposals'')]])
     \<and> is_update (update_request issueKey d stage)
     \<and> \<not> is_create (update_request issueKey d stage)
     \<and> req_url (update_request issueKey d stage) = API @ ''/issue/'' @ issueKey
     \<and> path [''update'', ''description''] (req_body (update_request issueKey d stage))
          = Some (JArr [JObj [(''set'', JStr d)]])
     \<and> path [''fields'', ''parent'', ''key''] (req_body (update_request issueKey d stage))
          = map_option JStr (STAGE_EPICS stage)
     \<and> json_keys (req_body (update_request issueKey d stage))
          = [''fields'', ''parent'']
              @ (case STAGE_EPICS stage of None \<Rightarrow> [] | Some e \<Rightarrow> [''key''])
              @ [''update'', ''description'', ''set'']
     \<and> ''summary'' \<notin> set (json_keys (req_body (update_request issueKey d stage)))"
proof -
  have c: "index ident = None \<longrightarrow>
        calls (fst (process_proposal srv h (Some index) p s))
          = calls s @ [create_request (prop_name p)
                         (description h ident (prop_url p) (prop_notes p)) (prop_stage p)]"
    using assms by (simp add: process_proposal_create createIssue_calls)
  have u: "index ident = Some issueKey \<longrightarrow>
        calls (fst (process_proposal srv h (Some index) p s))
          = calls s @ [update_request issueKey
                         (description h ident (prop_url p) (prop_notes p)) (prop_stage p)]"
    using assms by (simp add: process_proposal_update updateIssue_calls)
  have comp: "path [''fields'', ''components''] (req_body (create_request name d stage))
          = Some (JArr [JObj [(''name'', JStr ''TC39 Proposals'')]])"
    by (simp add: create_request_def COMPONENT_def)
  show ?thesis
    by (intro conjI c u comp is_create_create_request not_is_update_create_request
        create_request_fields create_request_parent_key is_update_update_request
        not_is_create_update_request update_request_fields update_request_parent_key
        update_request_keys update_request_no_summary)
qed

theorem create_or_update_witness:
  "calls (fst (process_proposal service_ok host_utc (Some sample_index) proposal_2024 start))
     = [create_request ''New'' (description host_utc ''new-1'' ''https://example.org/new'' [])
          4]
   \<and> calls (fst (process_proposal service_refusing host_utc (Some sample_index)
                    proposal_stage3 start))
     = [update_request ''SJP-201''
          (description host_utc ''foo-1'' ''https://example.org/foo'' [jan15_note]) 3]
   \<and> path [''fields'', ''summary'']
        (req_body (create_request ''New''
           (description host_utc ''new-1'' ''https://example.org/new'' []) 4))
       = Some (JStr ''New'')
   \<and> ''summary'' \<notin> set (json_keys (req_body (update_request ''SJP-201''
           (description host_utc ''foo-1'' ''https://example.org/foo'' [jan15_note]) 3)))"
proof -
  have i1: "prop_id proposal_2024 = Some ''new-1''" and i2: "prop_id proposal_stage3 = Some ''foo-1''"
    by (simp_all add: proposal_2024_def proposal_stage3_def)
  have f: "prop_name proposal_2024 = ''New''" "prop_url proposal_2024 = ''https://example.org/new''"
    "prop_notes proposal_2024 = []" "prop_stage proposal_2024 = 4"
    "prop_url proposal_stage3 = ''https://example.org/foo''"
    "prop_notes proposal_stage3 = [jan15_note]" "prop_stage proposal_stage3 = 3"
    "calls start = []"
    by (simp_all add: proposal_2024_def proposal_stage3_def start_def)
  show ?thesis
    using create_or_update [OF relevant_samples(3) i1, of sample_index service_ok host_utc start
        "''SJP-201''" "''New''" "description host_utc ''new-1'' ''https://example.org/new'' []" 4]
      create_or_update [OF relevant_samples(1) i2, of sample_index service_refusing host_utc
        start "''SJP-201''" "''New''"
        "description host_utc ''foo-1'' ''https://example.org/foo'' [jan15_note]" 3]
    by (simp add: sample_index_values f)
qed

subsection \<open>The relevance filter\<close>

text \<open>
  Claim C4. The body of the loop leaves the state as it is, so makes no request, when
  the stage is below 1, or the stage is 4 and the edition is a year before 2024, or the
  identifier is missing, whatever the stage. A proposal of stage 4 and edition 2023 is
  skipped; one of stage 4 and edition 2024 with an identifier is processed: exactly one
  request is made, a create or an update request. A dataset of skipped proposals makes no
  request at all.
\<close>

theorem relevance_filter:
  "(prop_stage p < 1 \<or> (prop_stage p = 4 \<and> (\<exists>y. prop_edition p = Some y \<and> y < 2024))
      \<or> prop_id p = None
     \<longrightarrow> process_proposal srv h issueKeys p s = (s, Inr ()))
   \<and> (prop_stage p = 4 \<and> prop_edition p = Some 2023
     \<longrightarrow> process_proposal srv h issueKeys p s = (s, Inr ()))
   \<and> (prop_stage p = 4 \<and> prop_edition p = Some 2024 \<and> prop_id p = Some ident
     \<longrightarrow> calls (fst (process_proposal srv h (Some index) p s))
           = calls s @ [planned_request h index p]
         \<and> (is_create (planned_request h index p) \<or> is_update (planned_request h index p)))
   \<and> ((\<forall>q \<in> set ps. prop_stage q < 1
                       \<or> (prop_stage q = 4 \<and> (\<exists>y. prop_edition q = Some y \<and> y < 2024))
                       \<or> prop_id q = None)
     \<longrightarrow> proposals_loop srv h issueKeys ps s = (s, Inr ()))"
proof -
  have skip: "\<not> relevant q"
    if "prop_stage q < 1 \<or> (prop_stage q = 4 \<and> (\<exists>y. prop_edition q = Some y \<and> y < 2024))
          \<or> prop_id q = None" for q
    using that by (auto simp: relevant_def edition_before_def)
  have a: "prop_stage p < 1 \<or> (prop_stage p = 4 \<and> (\<exists>y. prop_edition p = Some y \<and> y < 2024))
      \<or> prop_id p = None
     \<longrightarrow> process_proposal srv h issueKeys p s = (s, Inr ())"
    using skip [of p] process_proposal_skip by blast
  have b: "prop_stage p = 4 \<and> prop_edition p = Some 2023
     \<longrightarrow> process_proposal srv h issueKeys p s = (s, Inr ())"
    using skip [of p] process_proposal_skip by auto
  have c: "prop_stage p = 4 \<and> prop_edition p = Some 2024 \<and> prop_id p = Some ident
     \<longrightarrow> calls (fst (process_proposal srv h (Some index) p s))
           = calls s @ [planned_request h index p]
         \<and> (is_create (planned_request h index p) \<or> is_update (planned_request h index p))"
  proof (intro impI)
    assume h: "prop_stage p = 4 \<and> prop_edition p = Some 2024 \<and> prop_id p = Some ident"
    then have r: "relevant p"
      by (simp add: relevant_def edition_before_def)
    have "is_create (planned_request h index p) \<or> is_update (planned_request h index p)"
      by (cases "index (the (prop_id p))")
        (simp_all add: planned_request_def is_create_create_request is_update_update_request)
    with r show "calls (fst (process_proposal srv h (Some index) p s))
           = calls s @ [planned_request h index p]
         \<and> (is_create (planned_request h index p) \<or> is_update (planned_request h index p))"
      by (simp add: process_proposal_calls)
  qed
  have d: "(\<forall>q \<in> set ps. prop_stage q < 1
                       \<or> (prop_stage q = 4 \<and> (\<exists>y. prop_edition q = Some y \<and> y < 2024))
                       \<or> prop_id q = None)
     \<longrightarrow> proposals_loop srv h issueKeys ps s = (s, Inr ())"
    using skip proposals_loop_skip_all [of ps srv h issueKeys s] by blast
  show ?thesis
    by (intro conjI a b c d)
qed

theorem relevance_filter_witness:
  "process_proposal service_ok host_utc (Some sample_index) proposal_stage0 start
     = (start, Inr ())
   \<and> process_proposal service_ok host_utc (Some sample_index) proposal_2023 start
     = (start, Inr ())
   \<and> process_proposal service_ok host_utc (Some sample_index) proposal_no_id start
     = (start, Inr ())
   \<and> calls (fst (process_proposal service_ok host_utc (Some sample_index) proposal_2024 start))
     = [planned_request host_utc sample_index proposal_2024]
   \<and> is_create (planned_request host_utc sample_index proposal_2024)
   \<and> proposals_loop service_ok host_utc (Some sample_index)
        [proposal_stage0, proposal_2023, proposal_no_id] start = (start, Inr ())"
proof -
  have f: "prop_stage proposal_stage0 < 1"
    "prop_stage proposal_2023 = 4 \<and> prop_edition proposal_2023 = Some 2023"
    "prop_id proposal_no_id = None"
    "prop_stage proposal_2024 = 4 \<and> prop_edition proposal_2024 = Some 2024
       \<and> prop_id proposal_2024 = Some ''new-1''"
    by (simp_all add: proposal_stage0_def proposal_2023_def proposal_no_id_def
        proposal_2024_def)
  have g: "\<forall>q \<in> set [proposal_stage0, proposal_2023, proposal_no_id].
             prop_stage q < 1
             \<or> (prop_stage q = 4 \<and> (\<exists>y. prop_edition q = Some y \<and> y < 2024))
             \<or> prop_id q = None"
    by (simp add: proposal_stage0_def proposal_2023_def proposal_no_id_def)
  have k: "is_create (planned_request host_utc sample_index proposal_2024)"
    by (simp add: planned_request_def proposal_2024_def sample_index_values
        is_create_create_request)
  have c: "calls start = []"
    by (simp add: start_def)
  show ?thesis
    using relevance_filter [of proposal_stage0 service_ok host_utc "Some sample_index" start
        "''x''" sample_index "[proposal_stage0, proposal_2023, proposal_no_id]"]
      relevance_filter [of proposal_2023 service_ok host_utc "Some sample_index" start
        "''x''" sample_index "[]"]
      relevance_filter [of proposal_no_id service_ok host_utc "Some sample_index" start
        "''x''" sample_index "[]"]
      relevance_filter [of proposal_2024 service_ok host_utc "Some sample_index" start
        "''new-1''" sample_index "[]"]
      f g k c
    by simp
qed

subsection \<open>Stage 4 without an edition\<close>

text \<open>
  Claim C10. For a proposal of stage 4 whose edition is missing the comparison
  \<^verbatim>\<open>proposal.edition < 2024\<close> is false, so the proposal is not skipped: with an
  identifier it passes the filter and the body goes on to the create or update call,
  according to the index.
\<close>

theorem stage4_without_edition:
  assumes "prop_stage p = 4" and "prop_edition p = None" and "prop_id p = Some ident"
  shows "\<not> edition_before (prop_edition p) 2024
     \<and> relevant p
     \<and> process_proposal srv h (Some index) p s
         = (case index ident of
              None \<Rightarrow> createIssue srv (prop_name p)
                        (description h ident (prop_url p) (prop_notes p)) 4 s
            | Some issueKey \<Rightarrow> updateIssue srv issueKey
                        (description h ident (prop_url p) (prop_notes p)) 4 s)
     \<and> calls (fst (process_proposal srv h (Some index) p s))
         = calls s @ [case index ident of
                        None \<Rightarrow> create_request (prop_name p)
                                  (description h ident (prop_url p) (prop_notes p)) 4
                      | Some issueKey \<Rightarrow> update_request issueKey
                                  (description h ident (prop_url p) (prop_notes p)) 4]"
proof -
  have e: "\<not> edition_before (prop_edition p) 2024"
    using assms by (simp add: edition_before_def)
  have r: "relevant p"
    using assms by (simp add: relevant_def edition_before_def)
  have b: "process_proposal srv h (Some index) p s
         = (case index ident of
              None \<Rightarrow> createIssue srv (prop_name p)
                        (description h ident (prop_url p) (prop_notes p)) 4 s
            | Some issueKey \<Rightarrow> updateIssue srv issueKey
                        (description h ident (prop_url p) (prop_notes p)) 4 s)"
    using assms r
    by (cases "index ident") (simp_all add: process_proposal_create process_proposal_update)
  have c: "calls (fst (process_proposal srv h (Some index) p s))
         = calls s @ [case index ident of
                        None \<Rightarrow> create_request (prop_name p)
                                  (description h ident (prop_url p) (prop_notes p)) 4
                      | Some issueKey \<Rightarrow> update_request issueKey
                                  (description h ident (prop_url p) (prop_notes p)) 4]"
    unfolding b
    by (cases "index ident") (simp_all add: createIssue_calls updateIssue_calls)
  show ?thesis
    by (intro conjI e r b c)
qed

theorem stage4_without_edition_witness:
  "relevant proposal_no_edition
   \<and> calls (fst (process_proposal service_ok host_utc (Some sample_index) proposal_no_edition
                    start))
     = [create_request ''Bar'' (description host_utc ''bar-1'' ''https://example.org/bar'' []) 4]
   \<and> logs (fst (process_proposal service_ok host_utc (Some sample_index) proposal_no_edition
                   start))
     = [''Created issue for Bar with key: SJP-900'']"
proof -
  have f: "prop_stage proposal_no_edition = 4" "prop_edition proposal_no_edition = None"
    "prop_id proposal_no_edition = Some ''bar-1''"
    by (simp_all add: proposal_no_edition_def)
  have g: "prop_name proposal_no_edition = ''Bar''"
    "prop_url proposal_no_edition = ''https://example.org/bar''"
    "prop_notes proposal_no_edition = []" "calls start = []" "logs start = []"
    by (simp_all add: proposal_no_edition_def start_def)
  have l: "logs (fst (createIssue service_ok ''Bar'' d 4 start))
             = [''Created issue for Bar with key: SJP-900'']" for d
    by (simp add: createIssue_def fetch_def service_ok_def is_search_def is_create_def
        create_request_def API_def console_log_def start_def show_undefined_def data_key_def)
  show ?thesis
    using stage4_without_edition [OF f, of service_ok host_utc sample_index start]
    by (simp add: sample_index_values g l createIssue_calls)
qed

subsection \<open>The table of parents\<close>

lemma STAGE_EPICS_values:
  "STAGE_EPICS 1 = Some ''SJP-184''" "STAGE_EPICS 2 = Some ''SJP-185''"
  "STAGE_EPICS (27 / 10) = Some ''SJP-186''" "STAGE_EPICS 3 = Some ''SJP-187''"
  "STAGE_EPICS 4 = Some ''SJP-188''"
  by (simp_all add: STAGE_EPICS_def STAGE_EPICS_table_def)

lemma STAGE_EPICS_other:
  "stage \<notin> {1, 2, 27 / 10, 3, 4} \<Longrightarrow> STAGE_EPICS stage = None"
  by (simp add: STAGE_EPICS_def STAGE_EPICS_table_def)

text \<open>
  Claim C9, as amended. Each of the stages 1, 2, 2.7, 3 and 4 passes the stage test of
  the filter and has an entry in \<^verbatim>\<open>STAGE_EPICS\<close>; the table is exactly
  1 to SJP-184, 2 to SJP-185, 2.7 to SJP-186, 3 to SJP-187 and 4 to SJP-188; the create and
  the update request carry as parent key the entry of the stage, and no parent key when
  the stage has no entry.
\<close>

theorem stage_parent_table:
  "(stage \<in> {1, 2, 27 / 10, 3, 4} \<longrightarrow> 1 \<le> stage \<and> STAGE_EPICS stage \<noteq> None)
   \<and> (STAGE_EPICS stage = Some key \<longleftrightarrow>
        (stage, key) \<in> {(1, ''SJP-184''), (2, ''SJP-185''), (27 / 10, ''SJP-186''),
                         (3, ''SJP-187''), (4, ''SJP-188'')})
   \<and> path [''fields'', ''parent'', ''key''] (req_body (create_request name d stage))
        = map_option JStr (STAGE_EPICS stage)
   \<and> path [''fields'', ''parent'', ''key''] (req_body (update_request issueKey d stage))
        = map_option JStr (STAGE_EPICS stage)"
proof -
  have v: "1 \<le> stage \<and> (STAGE_EPICS stage = Some key \<longleftrightarrow>
        (stage, key) \<in> {(1, ''SJP-184''), (2, ''SJP-185''), (27 / 10, ''SJP-186''),
                         (3, ''SJP-187''), (4, ''SJP-188'')})
      \<and> STAGE_EPICS stage \<noteq> None"
    if "stage \<in> {1, 2, 27 / 10, 3, 4}"
  proof -
    from that consider "stage = 1" | "stage = 2" | "stage = 27 / 10" | "stage = 3" | "stage = 4"
      by blast
    then show ?thesis
    proof cases
      case 1
      show ?thesis unfolding 1 by (auto simp add: STAGE_EPICS_values)
    next
      case 2
      show ?thesis unfolding 2 by (auto simp add: STAGE_EPICS_values)
    next
      case 3
      show ?thesis unfolding 3 by (auto simp add: STAGE_EPICS_values)
    next
      case 4
      show ?thesis unfolding 4 by (auto simp add: STAGE_EPICS_values)
    next
      case 5
      show ?thesis unfolding 5 by (auto simp add: STAGE_EPICS_values)
    qed
  qed
  have a: "stage \<in> {1, 2, 27 / 10, 3, 4} \<longrightarrow> 1 \<le> stage \<and> STAGE_EPICS stage \<noteq> None"
    using v by blast
  have b: "STAGE_EPICS stage = Some key \<longleftrightarrow>
        (stage, key) \<in> {(1, ''SJP-184''), (2, ''SJP-185''), (27 / 10, ''SJP-186''),
                         (3, ''SJP-187''), (4, ''SJP-188'')}"
  proof (cases "stage \<in> {1, 2, 27 / 10, 3, 4}")
    case True
    then show ?thesis using v by blast
  next
    case False
    have "STAGE_EPICS stage = None"
      using False by (rule STAGE_EPICS_other)
    moreover have "(stage, key) \<notin> {(1, ''SJP-184''), (2, ''SJP-185''), (27 / 10, ''SJP-186''),
                         (3, ''SJP-187''), (4, ''SJP-188'')}"
      using False by blast
    ultimately show ?thesis by simp
  qed
  show ?thesis
    by (intro conjI a b create_request_parent_key update_request_parent_key)
qed

theorem stage_parent_table_witness:
  "1 \<le> (27 / 10 :: rat) \<and> STAGE_EPICS (27 / 10) = Some ''SJP-186''
   \<and> path [''fields'', ''parent'', ''key''] (req_body (create_request ''Foo'' ''d'' (27 / 10)))
        = Some (JStr ''SJP-186'')
   \<and> path [''fields'', ''parent'', ''key''] (req_body (update_request ''SJP-201'' ''d'' (27 / 10)))
        = Some (JStr ''SJP-186'')"
  using stage_parent_table [of "27 / 10" "''SJP-186''" "''Foo''" "''d''" "''SJP-201''"]
  by simp

text \<open>
  Claim C9, as stated, fails. The filter lets through stages that the table does not list: a proposal at a stage
  1.5 passes the filter, has no entry, and is created with a parent that has no key.
\<close>

theorem stage_without_parent:
  "1 \<le> prop_stage proposal_stage_1_5
   \<and> relevant proposal_stage_1_5
   \<and> STAGE_EPICS (prop_stage proposal_stage_1_5) = None
   \<and> calls (fst (process_proposal service_ok host_utc (Some sample_index) proposal_stage_1_5
                    start))
       = [create_request ''Baz'' (description host_utc ''baz-1'' ''https://example.org/baz'' [])
            (3 / 2)]
   \<and> path [''fields'', ''parent'']
        (req_body (create_request ''Baz''
           (description host_utc ''baz-1'' ''https://example.org/baz'' []) (3 / 2)))
       = Some (JObj [])"
proof -
  have s: "STAGE_EPICS (3 / 2) = None"
    by (simp add: STAGE_EPICS_def STAGE_EPICS_table_def)
  have f: "prop_stage proposal_stage_1_5 = 3 / 2" "prop_id proposal_stage_1_5 = Some ''baz-1''"
    "prop_name proposal_stage_1_5 = ''Baz''"
    "prop_url proposal_stage_1_5 = ''https://example.org/baz''"
    "prop_notes proposal_stage_1_5 = []"
    by (simp_all add: proposal_stage_1_5_def)
  have c: "calls (fst (process_proposal service_ok host_utc (Some sample_index)
                         proposal_stage_1_5 start))
       = [create_request ''Baz'' (description host_utc ''baz-1'' ''https://example.org/baz'' [])
            (3 / 2)]"
    using process_proposal_create [where index = sample_index and p = proposal_stage_1_5
        and ident = "''baz-1''" and srv = service_ok and h = host_utc and s = start]
      relevant_samples(7) sample_index_values(4)
    by (simp add: f createIssue_calls start_def)
  show ?thesis
    using c s by (simp add: f relevant_samples create_request_def parent_of_def)
qed

subsection \<open>A failing create or update call\<close>

lemma createIssue_failure:
  assumes "status (srv (calls s) (create_request name d stage)) \<noteq> 201"
    and "payload (srv (calls s) (create_request name d stage)) \<noteq> NotJson"
  shows "createIssue srv name d stage s =
           (\<lparr>logs = logs s @ [''Error creating issue for '' @ name @ '': ''
                               @ show_nat (status (srv (calls s) (create_request name d stage)))
                               @ '': ''
                               @ show_undefined (data_errors
                                   (payload (srv (calls s) (create_request name d stage))))],
              calls = calls s @ [create_request name d stage]\<rparr>, Inr ())"
  using assms
  by (cases "payload (srv (calls s) (create_request name d stage))")
    (simp_all add: createIssue_def fetch_def console_log_def)

lemma updateIssue_failure:
  assumes "status (srv (calls s) (update_request k d stage)) \<noteq> 204"
  shows "updateIssue srv k d stage s =
           (\<lparr>logs = logs s @ [''Error: could not update '' @ k @ '':  ''
                               @ statusText (srv (calls s) (update_request k d stage))],
              calls = calls s @ [update_request k d stage]\<rparr>, Inr ())"
  using assms by (simp add: updateIssue_def fetch_def console_log_def)

lemma process_proposal_returns:
  assumes "relevant p"
    and json: "\<And>hist req. is_create req \<Longrightarrow> payload (srv hist req) \<noteq> NotJson"
  shows "snd (process_proposal srv h (Some index) p s) = Inr ()"
proof -
  from assms(1) obtain ident where i: "prop_id p = Some ident"
    by (auto simp: relevant_def)
  show ?thesis
  proof (cases "index ident")
    case None
    then show ?thesis
      using assms(1) i json [OF is_create_create_request]
      by (simp add: process_proposal_create createIssue_returns)
  next
    case (Some issueKey)
    then show ?thesis
      using assms(1) i by (simp add: process_proposal_update updateIssue_returns)
  qed
qed

lemma proposals_loop_completes:
  assumes json: "\<And>hist req. is_create req \<Longrightarrow> payload (srv hist req) \<noteq> NotJson"
  shows "snd (proposals_loop srv h (Some index) ps s) = Inr ()
         \<and> calls (fst (proposals_loop srv h (Some index) ps s))
             = calls s @ map (planned_request h index) (filter relevant ps)"
proof (induction ps arbitrary: s)
  case Nil
  show ?case by simp
next
  case (Cons p ps)
  show ?case
  proof (cases "relevant p")
    case False
    then show ?thesis
      using Cons.IH [of s] by (simp add: process_proposal_skip)
  next
    case True
    obtain s1 r where sr: "process_proposal srv h (Some index) p s = (s1, r)"
      by (cases "process_proposal srv h (Some index) p s")
    have "snd (process_proposal srv h (Some index) p s) = Inr ()"
      using True json by (rule process_proposal_returns)
    then have r: "r = Inr ()"
      using sr by simp
    have c: "calls s1 = calls s @ [planned_request h index p]"
      using process_proposal_calls [OF True, of srv h index s] sr by simp
    show ?thesis
      using Cons.IH [of s1] True by (simp add: sr r c)
  qed
qed

lemma service_refusing_response:
  "status (service_refusing hist req) = 400"
  "statusText (service_refusing hist req) = []"
  "payload (service_refusing hist req)
     = IssueData None (Some ''{\"summary\":\"Field is required\"}'')"
  by (simp_all add: service_refusing_def)

lemma show_nat_400: "show_nat 400 = ''400''"
  by (simp add: show_nat.simps)

lemma planned_samples:
  "planned_request host_utc sample_index proposal_2024
     = create_request ''New'' (description host_utc ''new-1'' ''https://example.org/new'' []) 4"
  "planned_request host_utc sample_index proposal_stage3
     = update_request ''SJP-201''
         (description host_utc ''foo-1'' ''https://example.org/foo'' [jan15_note]) 3"
  by (simp_all add: planned_request_def proposal_2024_def proposal_stage3_def
      sample_index_values)

text \<open>
  Claim C8, as amended. When a create call returns a status other than 201 with a JSON
  body, the failure is logged with the status and the text of the body's \<^verbatim>\<open>errors\<close>
  member, and \<^verbatim>\<open>createIssue\<close> returns. When an update call returns a status other
  than 204, the failure is logged with the status text of the response, and
  \<^verbatim>\<open>updateIssue\<close> returns. When no create call is answered with a body that is not
  JSON, the loop runs to the end of the dataset whatever the statuses are, and makes one
  request for every relevant proposal, in the order of the dataset.
\<close>

theorem gateway_failure_continues:
  "(status (srv (calls s) (create_request name d stage)) \<noteq> 201
      \<and> payload (srv (calls s) (create_request name d stage)) \<noteq> NotJson
     \<longrightarrow> createIssue srv name d stage s =
           (\<lparr>logs = logs s @ [''Error creating issue for '' @ name @ '': ''
                               @ show_nat (status (srv (calls s) (create_request name d stage)))
                               @ '': ''
                               @ show_undefined (data_errors
                                   (payload (srv (calls s) (create_request name d stage))))],
              calls = calls s @ [create_request name d stage]\<rparr>, Inr ()))
   \<and> (status (srv (calls s) (update_request k d stage)) \<noteq> 204
     \<longrightarrow> updateIssue srv k d stage s =
           (\<lparr>logs = logs s @ [''Error: could not update '' @ k @ '':  ''
                               @ statusText (srv (calls s) (update_request k d stage))],
              calls = calls s @ [update_request k d stage]\<rparr>, Inr ()))
   \<and> ((\<forall>hist req. is_create req \<longrightarrow> payload (srv hist req) \<noteq> NotJson)
     \<longrightarrow> snd (proposals_loop srv h (Some index) ps s) = Inr ()
         \<and> calls (fst (proposals_loop srv h (Some index) ps s))
             = calls s @ map (planned_request h index) (filter relevant ps))"
  using createIssue_failure [of srv s name d stage] updateIssue_failure [of srv s k d stage]
    proposals_loop_completes [of srv h index ps s]
  by blast

theorem gateway_failure_continues_witness:
  "createIssue service_refusing ''New'' ''d'' 4 start
     = (\<lparr>logs = [''Error creating issue for New: 400: {\"summary\":\"Field is required\"}''],
         calls = [create_request ''New'' ''d'' 4]\<rparr>, Inr ())
   \<and> updateIssue service_refusing ''SJP-201'' ''d'' 4 start
     = (\<lparr>logs = [''Error: could not update SJP-201:  ''],
         calls = [update_request ''SJP-201'' ''d'' 4]\<rparr>, Inr ())
   \<and> snd (proposals_loop service_refusing host_utc (Some sample_index)
             [proposal_2024, proposal_stage0, proposal_stage3] start) = Inr ()
   \<and> calls (fst (proposals_loop service_refusing host_utc (Some sample_index)
                    [proposal_2024, proposal_stage0, proposal_stage3] start))
     = [create_request ''New'' (description host_utc ''new-1'' ''https://example.org/new'' [])
          4,
        update_request ''SJP-201''
          (description host_utc ''foo-1'' ''https://example.org/foo'' [jan15_note]) 3]"
proof -
  have j: "\<forall>hist req. is_create req \<longrightarrow> payload (service_refusing hist req) \<noteq> NotJson"
    by (simp add: service_refusing_response)
  show ?thesis
    using gateway_failure_continues [of service_refusing start "''New''" "''d''" 4 "''SJP-201''"
        host_utc sample_index "[proposal_2024, proposal_stage0, proposal_stage3]"] j
    by (simp add: service_refusing_response show_nat_400 show_undefined_def data_errors_def
        start_def relevant_samples planned_samples)
qed

text \<open>
  Claim C8, as stated, fails. An update refused with status 400 and an \<^verbatim>\<open>errors\<close> body is logged with its (empty)
  status text only: the line carries neither the status nor the error detail. And a create
  call answered 502 with a body that is not JSON makes \<^verbatim>\<open>response.json()\<close> reject:
  the run ends there, and the relevant proposal after it is not processed.
\<close>

theorem gateway_failure_log_and_abort:
  "status (service_refusing [] (update_request ''SJP-201'' ''d'' 3)) = 400
   \<and> data_errors (payload (service_refusing [] (update_request ''SJP-201'' ''d'' 3)))
       = Some ''{\"summary\":\"Field is required\"}''
   \<and> updateIssue service_refusing ''SJP-201'' ''d'' 3 start
       = (\<lparr>logs = [''Error: could not update SJP-201:  ''],
           calls = [update_request ''SJP-201'' ''d'' 3]\<rparr>, Inr ())
   \<and> status (service_bad_gateway []
         (create_request ''New'' (description host_utc ''new-1'' ''https://example.org/new'' [])
            4)) = 502
   \<and> relevant proposal_stage3
   \<and> proposals_loop service_bad_gateway host_utc (Some sample_index)
         [proposal_2024, proposal_stage3] start
       = (\<lparr>logs = [],
           calls = [create_request ''New''
                      (description host_utc ''new-1'' ''https://example.org/new'' []) 4]\<rparr>,
          Inl SyntaxError)"
proof -
  have u: "updateIssue service_refusing ''SJP-201'' ''d'' 3 start
       = (\<lparr>logs = [''Error: could not update SJP-201:  ''],
           calls = [update_request ''SJP-201'' ''d'' 3]\<rparr>, Inr ())"
    by (simp add: updateIssue_def fetch_def console_log_def service_refusing_response start_def)
  have i: "prop_id proposal_2024 = Some ''new-1''" "prop_name proposal_2024 = ''New''"
    "prop_url proposal_2024 = ''https://example.org/new''" "prop_notes proposal_2024 = []"
    "prop_stage proposal_2024 = 4"
    by (simp_all add: proposal_2024_def)
  have p: "process_proposal service_bad_gateway host_utc (Some sample_index) proposal_2024 start
       = (\<lparr>logs = [],
           calls = [create_request ''New''
                      (description host_utc ''new-1'' ''https://example.org/new'' []) 4]\<rparr>,
          Inl SyntaxError)"
    using process_proposal_create [where index = sample_index and p = proposal_2024
        and ident = "''new-1''" and srv = service_bad_gateway and h = host_utc and s = start]
      relevant_samples(3) sample_index_values(2)
    by (simp add: i createIssue_throws service_bad_gateway_def start_def)
  show ?thesis
    by (simp add: u p relevant_samples service_refusing_response data_errors_def
        service_bad_gateway_def)
qed

subsection \<open>The query loop\<close>


lemma getIssues_loop_page:
  assumes "startAt < totalResults"
    and "status (srv (calls s) (search_request startAt)) = 200"
    and "payload (srv (calls s) (search_request startAt)) = SearchData dataTotal issues"
  shows "getIssues_loop srv startAt totalResults mapping s =
           getIssues_loop srv (startAt + 100) dataTotal (fold set_issue issues mapping)
             (s\<lparr>calls := calls s @ [search_request startAt]\<rparr>)"
  using assms
  by (subst getIssues_loop.simps) (simp add: fetch_def)

lemma getIssues_loop_done:
  assumes "\<not> startAt < totalResults"
  shows "getIssues_loop srv startAt totalResults mapping s = Some (s, Inr (Some mapping))"
  using assms
  by (subst getIssues_loop.simps) simp






subsection \<open>A failing page of the query\<close>




subsection \<open>The pages of the query\<close>

lemma page_offsets_Suc: "page_offsets (Suc k) = page_offsets k @ [100 * k]"
  by (simp add: page_offsets_def)

lemma pages_needed:
  fixes T k :: nat
  shows "100 * k < T \<longleftrightarrow> k < (T + 99) div 100"
  by arith

lemma getIssues_loop_constant_total:
  assumes ok: "\<And>hist off. status (srv hist (search_request off)) = 200
                 \<and> (\<exists>issues. payload (srv hist (search_request off)) = SearchData T issues)"
    and hist: "calls s = map search_request (page_offsets k)"
  shows "getIssues_loop srv (100 * k) T m s =
           Some (s\<lparr>calls := map search_request (page_offsets (max k ((T + 99) div 100)))\<rparr>,
                 Inr (Some (fold set_issue
                              (concat (map (\<lambda>j. issues_of (page_response srv j))
                                         [k..<max k ((T + 99) div 100)])) m)))"
  using hist
proof (induction "(T + 99) div 100 - k" arbitrary: k m s)
  case 0
  then have "\<not> 100 * k < T" and mx: "max k ((T + 99) div 100) = k"
    by (simp_all add: pages_needed)
  then have "getIssues_loop srv (100 * k) T m s = Some (s, Inr (Some m))"
    by (simp add: getIssues_loop_done)
  moreover have "s\<lparr>calls := map search_request (page_offsets k)\<rparr> = s"
    using "0.prems" by simp
  ultimately show ?case
    by (simp add: mx)
next
  case (Suc n)
  then have lt: "k < (T + 99) div 100" by simp
  then have cond: "100 * k < T" by (simp add: pages_needed)
  have resp: "srv (calls s) (search_request (100 * k)) = page_response srv k"
    by (simp add: page_response_def Suc.prems)
  obtain issues where pl: "payload (page_response srv k) = SearchData T issues"
    using ok [of "calls s" "100 * k"] resp by auto
  have st: "status (page_response srv k) = 200"
    using ok [of "calls s" "100 * k"] resp by auto
  have iss: "issues_of (page_response srv k) = issues"
    by (simp add: issues_of_def pl)
  let ?s1 = "s\<lparr>calls := calls s @ [search_request (100 * k)]\<rparr>"
  have e: "100 * k + 100 = 100 * Suc k"
    by simp
  have "getIssues_loop srv (100 * k) T m s
          = getIssues_loop srv (100 * k + 100) T (fold set_issue issues m) ?s1"
    using cond st pl by (intro getIssues_loop_page) (simp_all only: resp)
  then have step: "getIssues_loop srv (100 * k) T m s
                = getIssues_loop srv (100 * Suc k) T (fold set_issue issues m) ?s1"
    by (simp only: e)
  have h1: "calls ?s1 = map search_request (page_offsets (Suc k))"
    by (simp add: page_offsets_Suc Suc.prems)
  have n: "n = (T + 99) div 100 - Suc k"
    using Suc.hyps(2) by simp
  have mx: "max k ((T + 99) div 100) = (T + 99) div 100"
    "max (Suc k) ((T + 99) div 100) = (T + 99) div 100"
    using lt by simp_all
  have upt: "[k..<(T + 99) div 100] = k # [Suc k..<(T + 99) div 100]"
    using lt by (simp add: upt_conv_Cons)
  show ?case
    unfolding step Suc.hyps(1) [OF n h1] mx upt
    by (simp add: iss)
qed

lemma getIssues_constant_total:
  assumes ok: "\<And>hist off. status (srv hist (search_request off)) = 200
                 \<and> (\<exists>issues. payload (srv hist (search_request off)) = SearchData T issues)"
  shows "getIssues srv start =
           Some (\<lparr>logs = [], calls = map search_request
                                       (page_offsets (max 1 ((T + 99) div 100)))\<rparr>,
                 Inr (Some (fold set_issue (retrieved srv (max 1 ((T + 99) div 100)))
                              Map.empty)))"
proof -
  have resp: "srv (calls start) (search_request 0) = page_response srv 0"
    by (simp add: page_response_def page_offsets_def start_def)
  obtain issues where pl: "payload (page_response srv 0) = SearchData T issues"
    using ok [of "calls start" 0] resp by auto
  have st: "status (page_response srv 0) = 200"
    using ok [of "calls start" 0] resp by auto
  have iss: "issues_of (page_response srv 0) = issues"
    by (simp add: issues_of_def pl)
  let ?s1 = "start\<lparr>calls := calls start @ [search_request 0]\<rparr>"
  have step: "getIssues srv start
                = getIssues_loop srv (100 * 1) T (fold set_issue issues Map.empty) ?s1"
    unfolding getIssues_def
    using getIssues_loop_page [of 0 1 srv start T issues Map.empty] st pl resp
    by simp
  have h1: "calls ?s1 = map search_request (page_offsets 1)"
    by (simp add: page_offsets_def start_def)
  have upt: "[0..<max 1 ((T + 99) div 100)] = 0 # [1..<max 1 ((T + 99) div 100)]"
    by (simp add: upt_conv_Cons)
  show ?thesis
    unfolding step retrieved_def upt
      getIssues_loop_constant_total [where srv = srv and T = T and k = 1 and s = ?s1, OF ok h1]
    by (simp add: iss start_def)
qed

lemma retrieved_Suc:
  "retrieved srv (Suc j) = retrieved srv j @ issues_of (page_response srv j)"
  by (simp add: retrieved_def)

lemma length_retrieved:
  assumes full: "\<And>k. length (issues_of (page_response srv k)) = min 100 (T - 100 * k)"
  shows "length (retrieved srv j) = min (100 * j) T"
proof (induction j)
  case 0
  show ?case by (simp add: retrieved_def)
next
  case (Suc j)
  show ?case
    unfolding retrieved_Suc length_append Suc.IH full
    by arith
qed

lemma retrieved_count:
  assumes full: "\<And>k. length (issues_of (page_response srv k)) = min 100 (T - 100 * k)"
  shows "length (retrieved srv (max 1 ((T + 99) div 100))) = T
         \<and> (\<forall>j. 1 \<le> j \<and> j < max 1 ((T + 99) div 100) \<longrightarrow> length (retrieved srv j) < T)"
proof -
  have "min (100 * max 1 ((T + 99) div 100)) T = T"
    by (simp add: max_def min_def) arith
  moreover have "min (100 * j) T < T" if "1 \<le> j" "j < max 1 ((T + 99) div 100)" for j
    using that by (simp add: max_def min_def split: if_splits) arith
  ultimately show ?thesis
    using length_retrieved [OF full] by simp
qed

lemma search_request_page:
  "path [''maxResults''] (req_body (search_request off)) = Some (JNum 100)"
  "path [''startAt''] (req_body (search_request off)) = Some (JNum (int off))"
  by (simp_all add: search_request_def)

lemma fold_set_issue_last:
  "fold set_issue xs m ident =
     (if filter (\<lambda>x. \<exists>k. issue_entry x = Some (ident, k)) xs = [] then m ident
      else map_option snd
             (issue_entry (last (filter (\<lambda>x. \<exists>k. issue_entry x = Some (ident, k)) xs))))"
  using fold_upd_last [of set_issue issue_entry xs m ident, OF set_issue_entry] .

lemma issue_entry_sample: "issue_entry sample_issue = Some (''foo-1'', ''SJP-201'')"
  by code_simp

lemma service_250_pages:
  "page_response service_250 k
     = \<lparr>status = 200, statusText = ''OK'',
        payload = SearchData 250 (replicate (min 100 (250 - 100 * k)) sample_issue),
        text_method = sample_text_method\<rparr>"
  by (simp add: page_response_def service_250_def page_offsets_def)

lemma retrieved_250:
  "retrieved service_250 3
     = replicate 100 sample_issue @ replicate 100 sample_issue @ replicate 50 sample_issue"
proof -
  have "[0..<3] = [0, 1, 2]"
    by (simp add: upt_rec)
  then show ?thesis
    by (simp add: retrieved_def issues_of_def service_250_pages)
qed

lemma offset_reaches_total:
  fixes T :: nat
  shows "T \<le> 100 * max 1 ((T + 99) div 100)
         \<and> (\<forall>j. 1 \<le> j \<and> j < max 1 ((T + 99) div 100) \<longrightarrow> 100 * j < T)"
proof -
  have "T \<le> 100 * max 1 ((T + 99) div 100)"
    by arith
  moreover have "100 * j < T" if "1 \<le> j" "j < max 1 ((T + 99) div 100)" for j
    using that by arith
  ultimately show ?thesis by blast
qed

text \<open>
  Claim C5, as amended. When every page is answered with status 200 and reports the
  total \<open>T\<close>, the query returns, after requests at the offsets 0, 100, 200 and so on, each
  asking for 100 records, and it stops once the offset has reached \<open>T\<close>: there are
  \<open>max 1 \<lceil>T / 100\<rceil>\<close> requests, the first number of pages for which the offset is at
  least \<open>T\<close>; for \<open>T = 250\<close> these are the offsets 0, 100 and 200. When every page is
  full, the records retrieved by then are \<open>T\<close> in number, and fewer than \<open>T\<close> after any
  smaller number of pages. The index is built from the records of all these pages in
  the order they are returned: an identifier is mapped to the key of the last record
  whose description carries it.
\<close>

theorem pagination:
  "((\<forall>hist off. status (srv hist (search_request off)) = 200
        \<and> (\<exists>issues. payload (srv hist (search_request off)) = SearchData T issues))
     \<longrightarrow> getIssues srv start =
           Some (\<lparr>logs = [], calls = map search_request
                                       (page_offsets (max 1 ((T + 99) div 100)))\<rparr>,
                 Inr (Some (fold set_issue (retrieved srv (max 1 ((T + 99) div 100)))
                              Map.empty))))
   \<and> T \<le> 100 * max 1 ((T + 99) div 100)
   \<and> (\<forall>j. 1 \<le> j \<and> j < max 1 ((T + 99) div 100) \<longrightarrow> 100 * j < T)
   \<and> path [''maxResults''] (req_body (search_request off)) = Some (JNum 100)
   \<and> path [''startAt''] (req_body (search_request off)) = Some (JNum (int off))
   \<and> ((\<forall>k. length (issues_of (page_response srv k)) = min 100 (T - 100 * k))
     \<longrightarrow> length (retrieved srv (max 1 ((T + 99) div 100))) = T
         \<and> (\<forall>j. 1 \<le> j \<and> j < max 1 ((T + 99) div 100) \<longrightarrow> length (retrieved srv j) < T))
   \<and> fold set_issue xs Map.empty ident =
       (if filter (\<lambda>x. \<exists>k. issue_entry x = Some (ident, k)) xs = [] then None
        else map_option snd
               (issue_entry (last (filter (\<lambda>x. \<exists>k. issue_entry x = Some (ident, k)) xs))))"
proof -
  have a: "(\<forall>hist off. status (srv hist (search_request off)) = 200
        \<and> (\<exists>issues. payload (srv hist (search_request off)) = SearchData T issues))
     \<longrightarrow> getIssues srv start =
           Some (\<lparr>logs = [], calls = map search_request
                                       (page_offsets (max 1 ((T + 99) div 100)))\<rparr>,
                 Inr (Some (fold set_issue (retrieved srv (max 1 ((T + 99) div 100)))
                              Map.empty)))"
    using getIssues_constant_total [of srv T] by blast
  have b: "(\<forall>k. length (issues_of (page_response srv k)) = min 100 (T - 100 * k))
     \<longrightarrow> length (retrieved srv (max 1 ((T + 99) div 100))) = T
         \<and> (\<forall>j. 1 \<le> j \<and> j < max 1 ((T + 99) div 100) \<longrightarrow> length (retrieved srv j) < T)"
    using retrieved_count [of srv T] by blast
  have c: "fold set_issue xs Map.empty ident =
       (if filter (\<lambda>x. \<exists>k. issue_entry x = Some (ident, k)) xs = [] then None
        else map_option snd
               (issue_entry (last (filter (\<lambda>x. \<exists>k. issue_entry x = Some (ident, k)) xs))))"
    by (simp add: fold_set_issue_last)
  have d: "T \<le> 100 * max 1 ((T + 99) div 100)"
    and e: "\<forall>j. 1 \<le> j \<and> j < max 1 ((T + 99) div 100) \<longrightarrow> 100 * j < T"
    using offset_reaches_total [of T] by blast+
  show ?thesis
    by (intro conjI a b c d e search_request_page)
qed

theorem pagination_witness:
  "getIssues service_250 start
     = Some (\<lparr>logs = [], calls = [search_request 0, search_request 100, search_request 200]\<rparr>,
             Inr (Some (fold set_issue (retrieved service_250 3) Map.empty)))
   \<and> length (retrieved service_250 3) = 250
   \<and> length (retrieved service_250 1) < 250
   \<and> length (retrieved service_250 2) < 250
   \<and> fold set_issue (retrieved service_250 3) Map.empty ''foo-1'' = Some ''SJP-201''
   \<and> path [''maxResults''] (req_body (search_request 200)) = Some (JNum 100)
   \<and> path [''startAt''] (req_body (search_request 200)) = Some (JNum 200)"
proof -
  have ok: "\<forall>hist off. status (service_250 hist (search_request off)) = 200
        \<and> (\<exists>issues. payload (service_250 hist (search_request off)) = SearchData 250 issues)"
    by (simp add: service_250_def)
  have full: "\<forall>k. length (issues_of (page_response service_250 k)) = min 100 (250 - 100 * k)"
    by (simp add: issues_of_def service_250_pages)
  have n: "max 1 ((250 + 99) div 100) = (3::nat)"
    by simp
  have offs: "page_offsets 3 = [0, 100, 200]"
    by (simp add: page_offsets_def upt_rec)
  have f: "filter (\<lambda>x. \<exists>k. issue_entry x = Some (''foo-1'', k)) (retrieved service_250 3)
             = retrieved service_250 3"
    by (simp add: retrieved_250 issue_entry_sample)
  have l: "last (retrieved service_250 3) = sample_issue" "retrieved service_250 3 \<noteq> []"
    by (simp_all add: retrieved_250)
  have j: "(1::nat) \<le> 1 \<and> (1::nat) < 3" "(1::nat) \<le> 2 \<and> (2::nat) < 3"
    by simp_all
  show ?thesis
    using pagination [of service_250 250 200 "retrieved service_250 3" "''foo-1''"] ok full j
    unfolding n offs f
    by (simp add: l issue_entry_sample)
qed

text \<open>
  Claim C5, as stated, fails. The loop compares the offset with the total and never
  counts the records. A service that reports the total 250 and returns 50 records a page
  is asked for the pages at 0, 100 and 200, and the query returns with 150 records
  retrieved.
\<close>

theorem short_pages_stop_early:
  "payload (page_response service_short_pages 0) = SearchData 250 (replicate 50 sample_issue)
   \<and> getIssues service_short_pages start
       = Some (\<lparr>logs = [],
                calls = [search_request 0, search_request 100, search_request 200]\<rparr>,
               Inr (Some short_pages_index))
   \<and> length (retrieved service_short_pages 3) = 150"
proof -
  have ok: "status (service_short_pages hist (search_request off)) = 200
        \<and> (\<exists>issues. payload (service_short_pages hist (search_request off))
                       = SearchData 250 issues)" for hist off
    by (simp add: service_short_pages_def)
  have n: "max 1 ((250 + 99) div 100) = (3::nat)"
    by simp
  have offs: "page_offsets 3 = [0, 100, 200]"
    by (simp add: page_offsets_def upt_rec)
  have g: "getIssues service_short_pages start
       = Some (\<lparr>logs = [],
                calls = [search_request 0, search_request 100, search_request 200]\<rparr>,
               Inr (Some short_pages_index))"
    using getIssues_constant_total [of service_short_pages 250, OF ok]
    unfolding n offs short_pages_index_def by simp
  have u: "[0..<3] = [0, 1, 2]"
    by (simp add: upt_rec)
  have p: "issues_of (page_response service_short_pages k) = replicate 50 sample_issue" for k
    by (simp add: issues_of_def page_response_def service_short_pages_def)
  have l: "length (retrieved service_short_pages 3) = 150"
    by (simp add: retrieved_def u p)
  show ?thesis
    using g l by (simp add: page_response_def service_short_pages_def)
qed

end
